theory Spec2Isabelle
  imports Complex_Main "HOL-Library.Log_Nat" "HOL-Library.Multiset"
begin

section \<open>Number values\<close>

text \<open>
  The dashboard of \<^verbatim>\<open>src/App.js\<close> computes with JavaScript Number values, which are
  IEEE 754 binary64 floating-point numbers. A Number is modelled as NaN, one of the two
  infinities, or a finite value given by the rational number it denotes. Every arithmetic
  operation computes the exact rational result and rounds it to the nearest binary64 value,
  ties to the even significand, with gradual underflow and with overflow to infinity.
  The two zeros of binary64 are one value here: the code divides by the literals 100 and
  2 only, and no other operation of the model tells the zeros apart. A zero divisor in
  \<open>jdiv\<close> counts as the positive zero.
\<close>

datatype jsnum = NaN | NInf | Fin rat | PInf

definition pow2 :: "int \<Rightarrow> rat" where
  "pow2 e = 2 powi e"

text \<open>Rounding to the nearest integer, ties to the even one.\<close>

definition rne :: "rat \<Rightarrow> int" where
  "rne x = (let f = \<lfloor>x\<rfloor>; d = x - of_int f in
     if d < 1 / 2 then f else if 1 / 2 < d then f + 1 else if even f then f else f + 1)"

text \<open>
  The binary exponent of a positive rational \<open>x\<close>, the integer \<open>e\<close> with
  \<open>pow2 e \<le> x < pow2 (e + 1)\<close>, computed from the bit length of the integer part of
  \<open>x\<close> or of \<open>1 / x\<close>; below the normal range the exponent of binary64 stays at -1022.
\<close>

definition ilog2 :: "rat \<Rightarrow> int" where
  "ilog2 x = (if 1 \<le> x then bitlen \<lfloor>x\<rfloor> - 1
              else let k = - bitlen \<lfloor>1 / x\<rfloor> in if pow2 (k + 1) \<le> x then k + 1 else k)"

definition expo :: "rat \<Rightarrow> int" where
  "expo x = max (ilog2 x) (- 1022)"

text \<open>The spacing of the binary64 values around \<open>x\<close>: 52 fraction bits below the exponent.\<close>

definition quantum :: "rat \<Rightarrow> rat" where
  "quantum x = pow2 (expo x - 52)"

definition round_mag :: "rat \<Rightarrow> rat" where
  "round_mag x = of_int (rne (x / quantum x)) * quantum x"

definition round64 :: "rat \<Rightarrow> jsnum" where
  "round64 x = (let m = round_mag \<bar>x\<bar> in
        if pow2 1024 \<le> m then (if 0 < x then PInf else NInf)
        else Fin (if 0 < x then m else - m))"

fun jneg :: "jsnum \<Rightarrow> jsnum" where
  "jneg NaN = NaN"
| "jneg NInf = PInf"
| "jneg (Fin x) = Fin (- x)"
| "jneg PInf = NInf"

fun jadd :: "jsnum \<Rightarrow> jsnum \<Rightarrow> jsnum" where
  "jadd (Fin x) (Fin y) = round64 (x + y)"
| "jadd (Fin x) PInf = PInf"
| "jadd (Fin x) NInf = NInf"
| "jadd PInf (Fin y) = PInf"
| "jadd PInf PInf = PInf"
| "jadd PInf NInf = NaN"
| "jadd NInf (Fin y) = NInf"
| "jadd NInf NInf = NInf"
| "jadd NInf PInf = NaN"
| "jadd NaN b = NaN"
| "jadd a NaN = NaN"

definition jsub :: "jsnum \<Rightarrow> jsnum \<Rightarrow> jsnum" where
  "jsub a b = jadd a (jneg b)"

fun jmul :: "jsnum \<Rightarrow> jsnum \<Rightarrow> jsnum" where
  "jmul (Fin x) (Fin y) = round64 (x * y)"
| "jmul (Fin x) PInf = (if x = 0 then NaN else if 0 < x then PInf else NInf)"
| "jmul (Fin x) NInf = (if x = 0 then NaN else if 0 < x then NInf else PInf)"
| "jmul PInf (Fin y) = (if y = 0 then NaN else if 0 < y then PInf else NInf)"
| "jmul NInf (Fin y) = (if y = 0 then NaN else if 0 < y then NInf else PInf)"
| "jmul PInf PInf = PInf"
| "jmul PInf NInf = NInf"
| "jmul NInf PInf = NInf"
| "jmul NInf NInf = PInf"
| "jmul NaN b = NaN"
| "jmul a NaN = NaN"

fun jdiv :: "jsnum \<Rightarrow> jsnum \<Rightarrow> jsnum" where
  "jdiv (Fin x) (Fin y) =
     (if y = 0 then (if x = 0 then NaN else if 0 < x then PInf else NInf)
      else round64 (x / y))"
| "jdiv (Fin x) PInf = Fin 0"
| "jdiv (Fin x) NInf = Fin 0"
| "jdiv PInf (Fin y) = (if 0 \<le> y then PInf else NInf)"
| "jdiv NInf (Fin y) = (if 0 \<le> y then NInf else PInf)"
| "jdiv PInf PInf = NaN"
| "jdiv PInf NInf = NaN"
| "jdiv NInf PInf = NaN"
| "jdiv NInf NInf = NaN"
| "jdiv NaN b = NaN"
| "jdiv a NaN = NaN"

text \<open>The comparisons \<^verbatim>\<open><=\<close> and \<^verbatim>\<open><\<close> on Numbers: false whenever an operand is NaN.\<close>

fun jle :: "jsnum \<Rightarrow> jsnum \<Rightarrow> bool" where
  "jle NaN b = False"
| "jle NInf b = (b \<noteq> NaN)"
| "jle (Fin x) b = (case b of Fin y \<Rightarrow> x \<le> y | PInf \<Rightarrow> True | _ \<Rightarrow> False)"
| "jle PInf b = (b = PInf)"

fun jless :: "jsnum \<Rightarrow> jsnum \<Rightarrow> bool" where
  "jless NaN b = False"
| "jless NInf b = (b \<noteq> NaN \<and> b \<noteq> NInf)"
| "jless (Fin x) b = (case b of Fin y \<Rightarrow> x < y | PInf \<Rightarrow> True | _ \<Rightarrow> False)"
| "jless PInf b = False"

text \<open>\<^verbatim>\<open>Math.min\<close> of two Numbers.\<close>

definition jmin :: "jsnum \<Rightarrow> jsnum \<Rightarrow> jsnum" where
  "jmin a b = (if a = NaN \<or> b = NaN then NaN else if jle a b then a else b)"

text \<open>
  Every finite binary64 value is an integer multiple of the smallest subnormal
  \<open>pow2 (- 1074)\<close>; \<open>is_double\<close> holds of the rationals that are binary64 values.
\<close>

definition on_grid :: "rat \<Rightarrow> bool" where
  "on_grid x = (x / pow2 (- 1074) \<in> \<int>)"

definition is_double :: "rat \<Rightarrow> bool" where
  "is_double x = (round64 x = Fin x)"

subsection \<open>The numeric literals of the source\<close>

definition lit_0_6 :: jsnum where
  "lit_0_6 = round64 (6 / 10)"

definition lit_0_9 :: jsnum where
  "lit_0_9 = round64 (9 / 10)"

text \<open>\<^verbatim>\<open>Math.PI\<close>, the binary64 value nearest to \<open>\<pi>\<close>.\<close>

definition Math_PI :: jsnum where
  "Math_PI = Fin (884279719003555 / 281474976710656)"

subsection \<open>parseFloat\<close>

text \<open>
  \<^verbatim>\<open>parseFloat\<close> skips leading white space and reads the longest prefix that is a
  decimal literal: an optional sign, then \<^verbatim>\<open>Infinity\<close> or digits with an optional
  fraction and an optional exponent part. The value of the literal is rounded to binary64;
  without such a prefix the result is NaN. Strings are lists of 8-bit characters, so the
  white space is the ASCII white space and the no-break space.
\<close>

definition is_ws :: "char \<Rightarrow> bool" where
  "is_ws c = (let n = (of_char c :: int) in (9 \<le> n \<and> n \<le> 13) \<or> n = 32 \<or> n = 160)"

definition is_digit :: "char \<Rightarrow> bool" where
  "is_digit c = (let n = (of_char c :: int) in 48 \<le> n \<and> n \<le> 57)"

definition digits_val :: "string \<Rightarrow> int" where
  "digits_val ds = foldl (\<lambda>a c. 10 * a + (of_char c - 48)) 0 ds"

definition pow10 :: "int \<Rightarrow> rat" where
  "pow10 e = 10 powi e"

text \<open>
  The exponent denoted by the longest exponent part at the head of a string, 0 when there
  is none: an \<^verbatim>\<open>e\<close> that no digit follows is not part of the literal.
\<close>

definition exponent_part :: "string \<Rightarrow> int" where
  "exponent_part s =
     (case s of
        [] \<Rightarrow> 0
      | c # r \<Rightarrow>
          if c = CHR ''e'' \<or> c = CHR ''E'' then
            (case r of
               [] \<Rightarrow> 0
             | d # r' \<Rightarrow>
                 if d = CHR ''+'' then digits_val (takeWhile is_digit r')
                 else if d = CHR ''-'' then - digits_val (takeWhile is_digit r')
                 else digits_val (takeWhile is_digit r))
          else 0)"

definition str_unsigned :: "string \<Rightarrow> jsnum option" where
  "str_unsigned s =
     (if take 8 s = ''Infinity'' then Some PInf
      else
        let ip = takeWhile is_digit s; r1 = dropWhile is_digit s in
        if r1 \<noteq> [] \<and> hd r1 = CHR ''.'' then
          (let fp = takeWhile is_digit (tl r1); r2 = dropWhile is_digit (tl r1) in
           if ip = [] \<and> fp = [] then None
           else Some (round64 (of_int (digits_val (ip @ fp)) / 10 ^ length fp
                                * pow10 (exponent_part r2))))
        else if ip = [] then None
        else Some (round64 (of_int (digits_val ip) * pow10 (exponent_part r1))))"

definition parseFloat :: "string \<Rightarrow> jsnum" where
  "parseFloat s =
     (let t = dropWhile is_ws s in
      case t of
        [] \<Rightarrow> NaN
      | c # r \<Rightarrow>
          if c = CHR ''+'' then (case str_unsigned r of None \<Rightarrow> NaN | Some v \<Rightarrow> v)
          else if c = CHR ''-'' then (case str_unsigned r of None \<Rightarrow> NaN | Some v \<Rightarrow> jneg v)
          else (case str_unsigned t of None \<Rightarrow> NaN | Some v \<Rightarrow> v))"

text \<open>
  A field that is absent from a record reads as \<^verbatim>\<open>undefined\<close>, which \<^verbatim>\<open>parseFloat\<close>
  turns into the string \<^verbatim>\<open>undefined\<close> first.
\<close>

definition parseFloat_field :: "string option \<Rightarrow> jsnum" where
  "parseFloat_field f = (case f of None \<Rightarrow> parseFloat ''undefined'' | Some s \<Rightarrow> parseFloat s)"

section \<open>The response of the detection service\<close>

text \<open>
  The transaction records and the response body as the code reads them. String fields are
  optional: \<open>None\<close> is a key that the JSON object does not have. The flag
  \<^verbatim>\<open>is_anomaly\<close> is only tested for truth, so an absent flag is \<open>False\<close>.
\<close>

record tx =
  timestamp :: "string option"
  transaction_hash :: "string option"
  from_address :: "string option"
  to_address :: "string option"
  value_eth :: "string option"
  anomaly_percentage :: "string option"
  is_anomaly :: bool
  severity :: "string option"

record response =
  total_transactions :: "int option"
  transactions :: "tx list option"

section \<open>Severity classifier\<close>

text \<open>
  \<^verbatim>\<open>getSeverityClass(severity, isDark)\<close> is a \<^verbatim>\<open>switch\<close> on the severity value with
  strict equality. An absent severity matches no \<^verbatim>\<open>case\<close> label and takes the
  \<^verbatim>\<open>default\<close> branch.
\<close>

definition getSeverityClass :: "string option \<Rightarrow> bool \<Rightarrow> string" where
  "getSeverityClass sev isDark =
     (if sev = Some ''HIGH'' then (if isDark then ''text-red-400'' else ''text-red-600'')
      else if sev = Some ''MEDIUM-HIGH'' then (if isDark then ''text-orange-400'' else ''text-orange-500'')
      else if sev = Some ''MEDIUM'' then (if isDark then ''text-yellow-400'' else ''text-yellow-500'')
      else if sev = Some ''LOW-MEDIUM'' then (if isDark then ''text-blue-400'' else ''text-blue-400'')
      else if sev = Some ''LOW'' then (if isDark then ''text-blue-400'' else ''text-blue-500'')
      else if sev = Some ''VERY-LOW'' then (if isDark then ''text-green-400'' else ''text-green-500'')
      else (if isDark then ''text-gray-400'' else ''text-gray-500''))"

text \<open>
  The table of section 4.2 of the specification, written from the specification's words:
  thirteen abstract colour tags and the mapping from severity and theme to a tag.
\<close>

datatype color_tag =
  RedStrong | RedMuted | OrangeStrong | OrangeMuted | YellowStrong | YellowMuted
  | BlueWeak | BlueMuted | BlueStrong | GreenStrong | GreenMuted | GrayStrong | GrayMuted

definition classify_spec :: "string option \<Rightarrow> bool \<Rightarrow> color_tag" where
  "classify_spec sev isDark =
     (if sev = Some ''HIGH'' then (if isDark then RedMuted else RedStrong)
      else if sev = Some ''MEDIUM-HIGH'' then (if isDark then OrangeMuted else OrangeStrong)
      else if sev = Some ''MEDIUM'' then (if isDark then YellowMuted else YellowStrong)
      else if sev = Some ''LOW-MEDIUM'' then (if isDark then BlueMuted else BlueWeak)
      else if sev = Some ''LOW'' then (if isDark then BlueMuted else BlueStrong)
      else if sev = Some ''VERY-LOW'' then (if isDark then GreenMuted else GreenStrong)
      else (if isDark then GrayMuted else GrayStrong))"

text \<open>
  The style class that stands for each abstract tag in the code: the muted tags are the
  400 shades, the strong tags the 500 shades (600 for red), and the weak blue of the light
  theme is the same 400 shade as the muted blue.
\<close>

fun tag_class :: "color_tag \<Rightarrow> string" where
  "tag_class RedStrong = ''text-red-600''"
| "tag_class RedMuted = ''text-red-400''"
| "tag_class OrangeStrong = ''text-orange-500''"
| "tag_class OrangeMuted = ''text-orange-400''"
| "tag_class YellowStrong = ''text-yellow-500''"
| "tag_class YellowMuted = ''text-yellow-400''"
| "tag_class BlueWeak = ''text-blue-400''"
| "tag_class BlueMuted = ''text-blue-400''"
| "tag_class BlueStrong = ''text-blue-500''"
| "tag_class GreenStrong = ''text-green-500''"
| "tag_class GreenMuted = ''text-green-400''"
| "tag_class GrayStrong = ''text-gray-500''"
| "tag_class GrayMuted = ''text-gray-400''"

section \<open>Score-to-geometry projection\<close>

text \<open>
  The layout constants of the effect of \<^verbatim>\<open>HyperSphereVisualization\<close>:
  \<^verbatim>\<open>radius = Math.min(width, height) / 2 - 40\<close> and \<^verbatim>\<open>innerRadius = radius * 0.6\<close>.
\<close>

definition width :: jsnum where
  "width = Fin 400"

definition height :: jsnum where
  "height = Fin 400"

definition radius :: jsnum where
  "radius = jsub (jdiv (jmin width height) (Fin 2)) (Fin 40)"

definition innerRadius :: jsnum where
  "innerRadius = jmul radius lit_0_6"

text \<open>
  The conditional expression that the callback of \<^verbatim>\<open>data.transactions.map\<close> binds to
  \<^verbatim>\<open>distance\<close>, with the two radii as parameters:
  \<^verbatim>\<open>tx.is_anomaly ? (innerRadius + (score / 100) * (radius - innerRadius))
                  : ((score / 100) * innerRadius * 0.9)\<close>.
\<close>

definition distance :: "jsnum \<Rightarrow> jsnum \<Rightarrow> jsnum \<Rightarrow> bool \<Rightarrow> jsnum" where
  "distance R r score anomalous =
     (if anomalous then jadd r (jmul (jdiv score (Fin 100)) (jsub R r))
      else jmul (jmul (jdiv score (Fin 100)) r) lit_0_9)"

definition tx_score :: "tx \<Rightarrow> jsnum" where
  "tx_score t = parseFloat_field (anomaly_percentage t)"

text \<open>
  \<^verbatim>\<open>Math.random\<close>, \<^verbatim>\<open>Math.cos\<close> and \<^verbatim>\<open>Math.sin\<close> are parameters of the model: the
  language leaves their values to the implementation. \<open>math_random m i\<close> is the value
  that the call for the record at index \<open>i\<close> returns.
\<close>

record js_math =
  math_random :: "nat \<Rightarrow> jsnum"
  math_cos :: "jsnum \<Rightarrow> jsnum"
  math_sin :: "jsnum \<Rightarrow> jsnum"

record point =
  point_x :: jsnum
  point_y :: jsnum
  point_score :: jsnum
  point_isAnomaly :: bool

text \<open>
  \<^verbatim>\<open>const points = data.transactions.map(tx => { ... })\<close>: \<open>project_point\<close> is the
  callback, applied to the record at index \<open>i\<close>, and \<open>points\<close> is the list it builds.
\<close>

definition project_point :: "js_math \<Rightarrow> nat \<Rightarrow> tx \<Rightarrow> point" where
  "project_point m i t =
     (let score = parseFloat_field (anomaly_percentage t);
          angle = jmul (jmul (math_random m i) (Fin 2)) Math_PI;
          d = distance radius innerRadius score (is_anomaly t)
      in \<lparr>point_x = jmul (math_cos m angle) d,
          point_y = jmul (math_sin m angle) d,
          point_score = score,
          point_isAnomaly = is_anomaly t\<rparr>)"

definition points :: "js_math \<Rightarrow> tx list \<Rightarrow> point list" where
  "points m txs = map (\<lambda>(i, t). project_point m i t) (enumerate 0 txs)"

text \<open>
  The content of the drawing: the boundary circle with its radius and stroke colour, and
  one circle per projected point with its centre and fill colour. The effect returns
  before it touches the drawing when the data or its transaction list is absent; otherwise
  it deletes the previous content and draws anew.
\<close>

datatype svg_node =
  BoundaryCircle jsnum string
  | PointCircle jsnum jsnum string

definition point_node :: "bool \<Rightarrow> point \<Rightarrow> svg_node" where
  "point_node dark p =
     PointCircle (point_x p) (point_y p)
       (if point_isAnomaly p then (if dark then ''#EF4444'' else ''#DC2626'')
        else (if dark then ''#10B981'' else ''#059669''))"

definition HyperSphereVisualization_effect ::
  "js_math \<Rightarrow> response option \<Rightarrow> bool \<Rightarrow> svg_node list \<Rightarrow> svg_node list" where
  "HyperSphereVisualization_effect m dat dark svg =
     (case dat of
        None \<Rightarrow> svg
      | Some d \<Rightarrow>
          (case transactions d of
             None \<Rightarrow> svg
           | Some txs \<Rightarrow>
               BoundaryCircle innerRadius (if dark then ''#4B5563'' else ''#E5E7EB'')
               # map (point_node dark) (points m txs)))"

fun is_point_node :: "svg_node \<Rightarrow> bool" where
  "is_point_node (PointCircle cx cy fill) = True"
| "is_point_node (BoundaryCircle r stroke) = False"

section \<open>The dashboard component\<close>

subsection \<open>State and data fetching\<close>

text \<open>
  The five state variables of \<^verbatim>\<open>App\<close> with their initial values. \<^verbatim>\<open>fetchData\<close>
  sets \<^verbatim>\<open>loading\<close>, issues one GET request and suspends; it resumes with the response
  body or, on a network error or a status outside 2xx, in its \<^verbatim>\<open>catch\<close> block. The two
  halves are two functions here, the second one taking the outcome of the request.
\<close>

datatype sort_order = Desc | Asc

record app_state =
  data :: "response option"
  loading :: bool
  error :: "string option"
  darkMode :: bool
  sortOrder :: sort_order

definition initial_state :: app_state where
  "initial_state =
     \<lparr>data = None, loading = True, error = None, darkMode = False, sortOrder = Desc\<rparr>"

datatype fetch_outcome = Resolved response | Rejected

definition fetchData_start :: "app_state \<Rightarrow> app_state" where
  "fetchData_start s = s\<lparr>loading := True\<rparr>"

definition fetchData_finish :: "fetch_outcome \<Rightarrow> app_state \<Rightarrow> app_state" where
  "fetchData_finish outcome s =
     (case outcome of
        Resolved body \<Rightarrow> s\<lparr>data := Some body, error := None, loading := False\<rparr>
      | Rejected \<Rightarrow>
          s\<lparr>error := Some ''Error fetching data, please refresh the page'', loading := False\<rparr>)"

subsection \<open>Sorting\<close>

text \<open>
  The comparator that \<^verbatim>\<open>handleSort\<close> passes to \<^verbatim>\<open>Array.prototype.sort\<close>:
  \<^verbatim>\<open>sortOrder === 'desc' ? scoreB - scoreA : scoreA - scoreB\<close>.
\<close>

definition compare_scores :: "sort_order \<Rightarrow> tx \<Rightarrow> tx \<Rightarrow> jsnum" where
  "compare_scores ord a b =
     (let scoreA = parseFloat_field (anomaly_percentage a);
          scoreB = parseFloat_field (anomaly_percentage b)
      in if ord = Desc then jsub scoreB scoreA else jsub scoreA scoreB)"

text \<open>
  \<^verbatim>\<open>Array.prototype.sort\<close> is a stable sort that puts \<open>a\<close> behind \<open>b\<close> when the
  comparator returns a positive number for \<open>(a, b)\<close> and takes a NaN result for 0. With a
  consistent comparator the language fixes the result, and the stable insertion sort below
  computes it; with an inconsistent comparator (which a NaN score causes here) the language
  leaves the order to the implementation, and the function below is one possible outcome.
\<close>

fun insert_sorted :: "('a \<Rightarrow> 'a \<Rightarrow> jsnum) \<Rightarrow> 'a \<Rightarrow> 'a list \<Rightarrow> 'a list" where
  "insert_sorted cmp a [] = [a]"
| "insert_sorted cmp a (b # bs) =
     (if jless (Fin 0) (cmp a b) then b # insert_sorted cmp a bs else a # b # bs)"

fun array_sort :: "('a \<Rightarrow> 'a \<Rightarrow> jsnum) \<Rightarrow> 'a list \<Rightarrow> 'a list" where
  "array_sort cmp [] = []"
| "array_sort cmp (a # as) = insert_sorted cmp a (array_sort cmp as)"

definition handleSort :: "app_state \<Rightarrow> app_state" where
  "handleSort s =
     (case data s of
        None \<Rightarrow> s
      | Some d \<Rightarrow>
          (case transactions d of
             None \<Rightarrow> s
           | Some txs \<Rightarrow>
               s\<lparr>data := Some (d\<lparr>transactions := Some (array_sort (compare_scores (sortOrder s)) txs)\<rparr>),
                 sortOrder := (if sortOrder s = Desc then Asc else Desc)\<rparr>))"

text \<open>The order that a sort state asks for, on the parsed scores of two records.\<close>

definition in_order :: "sort_order \<Rightarrow> tx \<Rightarrow> tx \<Rightarrow> bool" where
  "in_order ord a b =
     (if ord = Desc then jle (tx_score b) (tx_score a) else jle (tx_score a) (tx_score b))"

subsection \<open>Rendering\<close>

text \<open>
  \<^verbatim>\<open>String.prototype.substring\<close>: both indices are clamped to the string and swapped
  when the first exceeds the second. Calling it on an absent field throws a TypeError.
\<close>

datatype js_error = TypeError

definition substring :: "string \<Rightarrow> int \<Rightarrow> int \<Rightarrow> string" where
  "substring s start stop =
     (let len = int (length s);
          a = max 0 (min start len);
          b = max 0 (min stop len);
          lo = min a b;
          hi = max a b
      in take (nat (hi - lo)) (drop (nat lo) s))"

definition shorten :: "string \<Rightarrow> int \<Rightarrow> int \<Rightarrow> string" where
  "shorten s n k =
     substring s 0 n @ ''...'' @ substring s (int (length s) - k) (int (length s))"

text \<open>
  One table row: the time stamp, the shortened hash and addresses, the style class and
  the text of the score cell, and the status badge. The cell of \<^verbatim>\<open>value_eth\<close> formats
  one field with \<^verbatim>\<open>Number(...).toFixed(6)\<close>, which cannot throw; it is left out.
\<close>

record row =
  row_timestamp :: "string option"
  row_hash :: string
  row_from :: string
  row_to :: string
  row_score_class :: string
  row_score :: "string option"
  row_status :: string

definition make_row :: "bool \<Rightarrow> tx \<Rightarrow> string \<Rightarrow> string \<Rightarrow> string \<Rightarrow> row" where
  "make_row dark t h f a =
     \<lparr>row_timestamp = timestamp t,
      row_hash = shorten h 8 6,
      row_from = shorten f 6 4,
      row_to = shorten a 6 4,
      row_score_class = getSeverityClass (severity t) dark,
      row_score = anomaly_percentage t,
      row_status = (if is_anomaly t then ''Anomaly'' else ''Normal'')\<rparr>"

definition render_row :: "bool \<Rightarrow> tx \<Rightarrow> js_error + row" where
  "render_row dark t =
     (case transaction_hash t of
        None \<Rightarrow> Inl TypeError
      | Some h \<Rightarrow>
          (case from_address t of
             None \<Rightarrow> Inl TypeError
           | Some f \<Rightarrow>
               (case to_address t of
                  None \<Rightarrow> Inl TypeError
                | Some a \<Rightarrow> Inr (make_row dark t h f a))))"

fun render_rows :: "bool \<Rightarrow> tx list \<Rightarrow> js_error + row list" where
  "render_rows dark [] = Inr []"
| "render_rows dark (t # ts) =
     (case render_row dark t of
        Inl e \<Rightarrow> Inl e
      | Inr r \<Rightarrow> (case render_rows dark ts of Inl e \<Rightarrow> Inl e | Inr rs \<Rightarrow> Inr (r # rs)))"

text \<open>\<^verbatim>\<open>data?.transactions?.map(...)\<close>: no rows when the data or the list is absent.\<close>

definition table_rows :: "bool \<Rightarrow> response option \<Rightarrow> js_error + row list" where
  "table_rows dark dat =
     (case dat of
        None \<Rightarrow> Inr []
      | Some d \<Rightarrow> (case transactions d of None \<Rightarrow> Inr [] | Some txs \<Rightarrow> render_rows dark txs))"

definition shown_total :: "response option \<Rightarrow> int" where
  "shown_total dat =
     (case dat of
        None \<Rightarrow> 0
      | Some d \<Rightarrow> (case total_transactions d of None \<Rightarrow> 0 | Some n \<Rightarrow> n))"

definition shown_anomalies :: "response option \<Rightarrow> nat" where
  "shown_anomalies dat =
     (case dat of
        None \<Rightarrow> 0
      | Some d \<Rightarrow>
          (case transactions d of None \<Rightarrow> 0 | Some txs \<Rightarrow> length (filter is_anomaly txs)))"

text \<open>
  What \<^verbatim>\<open>App\<close> returns: the spinner while loading, the error message alone when the
  error state holds a non-empty string, and the dashboard otherwise. The content of the
  \<^verbatim>\<open>svg\<close> element of the dashboard is not part of what the component returns: the
  effect of \<^verbatim>\<open>HyperSphereVisualization\<close> writes it, and the element keeps it from one
  rendering of the dashboard to the next. It is the second argument here. \<open>Blank\<close> is
  the page on which the component is not mounted.
\<close>

datatype view =
  Spinner
  | ErrorMessage string
  | Dashboard int nat "svg_node list" "row list"
  | Blank

definition App_render :: "app_state \<Rightarrow> svg_node list \<Rightarrow> js_error + view" where
  "App_render s svg =
     (if loading s then Inr Spinner
      else if error s \<noteq> None \<and> error s \<noteq> Some [] then Inr (ErrorMessage (the (error s)))
      else
        (case table_rows (darkMode s) (data s) of
           Inl e \<Rightarrow> Inl e
         | Inr rows \<Rightarrow>
             Inr (Dashboard (shown_total (data s)) (shown_anomalies (data s)) svg rows)))"

fun view_points :: "view \<Rightarrow> svg_node list" where
  "view_points (Dashboard n k svg rows) = filter is_point_node svg"
| "view_points Spinner = []"
| "view_points (ErrorMessage msg) = []"
| "view_points Blank = []"

fun view_rows :: "view \<Rightarrow> row list" where
  "view_rows (Dashboard n k svg rows) = rows"
| "view_rows Spinner = []"
| "view_rows (ErrorMessage msg) = []"
| "view_rows Blank = []"

subsection \<open>Events\<close>

text \<open>
  The component on its page: its state, its interval timer, a count of the GET requests
  issued, the content of the \<^verbatim>\<open>svg\<close> element of the dashboard, and whether the
  component is mounted.
\<close>

datatype event = Mount bool | Tick | FetchDone fetch_outcome | ClickSort | ToggleDark | Unmount

record system =
  app :: app_state
  timer :: bool
  requests :: nat
  drawing :: "svg_node list"
  mounted :: bool

definition initial_system :: system where
  "initial_system =
     \<lparr>app = initial_state, timer = False, requests = 0, drawing = [], mounted = False\<rparr>"

definition dashboard_shown :: "app_state \<Rightarrow> bool" where
  "dashboard_shown s = (\<not> loading s \<and> (error s = None \<or> error s = Some []))"

text \<open>\<^verbatim>\<open>data?.transactions\<close> is truthy: the data and its list are present.\<close>

definition has_transactions :: "response option \<Rightarrow> bool" where
  "has_transactions dat = (case dat of None \<Rightarrow> False | Some d \<Rightarrow> transactions d \<noteq> None)"

text \<open>
  The rendering that follows a change of the state, from the system \<open>old\<close> before the
  change to the system \<open>new\<close> that holds the changed state. The spinner and the error
  message take the dashboard off the page, and its \<^verbatim>\<open>svg\<close> element with it. An
  exception thrown while the rows of the dashboard are rendered is the result. Otherwise
  the effect of \<^verbatim>\<open>HyperSphereVisualization\<close> runs, for its dependencies
  \<^verbatim>\<open>[data, darkMode]\<close> have changed or the dashboard has just been mounted: on the
  drawing that the element holds when the dashboard was on the page before the change, on
  an empty element when the change puts the dashboard on the page.
\<close>

definition rerender :: "js_math \<Rightarrow> system \<Rightarrow> system \<Rightarrow> js_error + system" where
  "rerender m old new =
     (if \<not> dashboard_shown (app new) then Inr (new\<lparr>drawing := []\<rparr>)
      else
        (case table_rows (darkMode (app new)) (data (app new)) of
           Inl e \<Rightarrow> Inl e
         | Inr rows \<Rightarrow>
             Inr (new\<lparr>drawing :=
                    HyperSphereVisualization_effect m (data (app new)) (darkMode (app new))
                      (if dashboard_shown (app old) then drawing old else [])\<rparr>)))"

text \<open>
  The events. Mounting creates the state with its initial values, starts a fetch, follows
  the colour scheme that the system prefers and registers the timer; each tick of the
  timer starts a fetch; the end of a request runs the second half of \<^verbatim>\<open>fetchData\<close>;
  the two buttons exist while the dashboard is shown, and \<^verbatim>\<open>handleSort\<close> returns
  without a change of the state when there is no transaction list; unmounting clears the
  timer, and an unmounted component takes no event but a mount. The first argument holds
  the values that \<^verbatim>\<open>Math.random\<close>, \<^verbatim>\<open>Math.cos\<close> and \<^verbatim>\<open>Math.sin\<close> return during the
  rendering that follows the event.
\<close>

fun step :: "js_math \<Rightarrow> event \<Rightarrow> system \<Rightarrow> js_error + system" where
  "step m (Mount prefersDark) y =
     (if mounted y then Inr y
      else rerender m y
             (y\<lparr>app := (fetchData_start initial_state)
                         \<lparr>darkMode := (if prefersDark then True else darkMode initial_state)\<rparr>,
                timer := True, requests := requests y + 1, mounted := True\<rparr>))"
| "step m Tick y =
     (if mounted y \<and> timer y
      then rerender m y (y\<lparr>app := fetchData_start (app y), requests := requests y + 1\<rparr>)
      else Inr y)"
| "step m (FetchDone outcome) y =
     (if mounted y then rerender m y (y\<lparr>app := fetchData_finish outcome (app y)\<rparr>) else Inr y)"
| "step m ClickSort y =
     (if mounted y \<and> dashboard_shown (app y) \<and> has_transactions (data (app y))
      then rerender m y (y\<lparr>app := handleSort (app y)\<rparr>)
      else Inr y)"
| "step m ToggleDark y =
     (if mounted y \<and> dashboard_shown (app y)
      then rerender m y (y\<lparr>app := (app y)\<lparr>darkMode := \<not> darkMode (app y)\<rparr>\<rparr>)
      else Inr y)"
| "step m Unmount y = Inr (y\<lparr>timer := False, drawing := [], mounted := False\<rparr>)"

text \<open>
  A run of events, each with the values of the three \<^verbatim>\<open>Math\<close> functions during its
  rendering; an exception ends the run.
\<close>

fun run :: "(js_math \<times> event) list \<Rightarrow> system \<Rightarrow> js_error + system" where
  "run [] y = Inr y"
| "run ((m, e) # es) y = (case step m e y of Inl err \<Rightarrow> Inl err | Inr y' \<Rightarrow> run es y')"

text \<open>What is on the page at the end of a run: the exception, or what the component shows.\<close>

definition page :: "js_error + system \<Rightarrow> js_error + view" where
  "page r =
     (case r of
        Inl e \<Rightarrow> Inl e
      | Inr y \<Rightarrow> (if mounted y then App_render (app y) (drawing y) else Inr Blank))"

subsection \<open>Sample inputs\<close>

text \<open>
  A well-formed record of the service with a given score text and anomaly flag, and a
  response body holding a list of records.
\<close>

definition sample_tx :: "string \<Rightarrow> bool \<Rightarrow> tx" where
  "sample_tx p a =
     \<lparr>timestamp = Some ''2024-05-01 12:00:00'',
      transaction_hash = Some ''0x5c504ed432cb51138bcf09aa5e8a410dd4a1e204ef84bfed1be16dfba1b22060'',
      from_address = Some ''0xa1e4380a3b1f749673e270229993ee55f35663b4'',
      to_address = Some ''0x5df9b87991262f6ba471f09758cde1c0fc1de734'',
      value_eth = Some ''0.031337'',
      anomaly_percentage = Some p,
      is_anomaly = a,
      severity = Some ''MEDIUM''\<rparr>"

definition sample_response :: "tx list \<Rightarrow> response" where
  "sample_response txs = \<lparr>total_transactions = Some (int (length txs)), transactions = Some txs\<rparr>"

definition sample_math :: js_math where
  "sample_math = \<lparr>math_random = (\<lambda>i. Fin (1 / 2)), math_cos = (\<lambda>a. Fin 1), math_sin = (\<lambda>a. Fin 0)\<rparr>"

text \<open>The state of the component after its first fetch has returned a response body.\<close>

definition loaded :: "response \<Rightarrow> app_state" where
  "loaded body = fetchData_finish (Resolved body) (fetchData_start initial_state)"

text \<open>A record whose hash and two addresses are present, so that its row can be rendered.\<close>

definition has_addresses :: "tx \<Rightarrow> bool" where
  "has_addresses t =
     (transaction_hash t \<noteq> None \<and> from_address t \<noteq> None \<and> to_address t \<noteq> None)"

text \<open>The row of a record that has its hash and addresses.\<close>

definition row_of :: "bool \<Rightarrow> tx \<Rightarrow> row" where
  "row_of dark t =
     make_row dark t (the (transaction_hash t)) (the (from_address t)) (the (to_address t))"

text \<open>
  The system after the component has been mounted under a light colour scheme, while its
  first fetch is in flight; and the system after that fetch has returned a body, with a
  given content of the \<^verbatim>\<open>svg\<close> element.
\<close>

definition waiting_system :: system where
  "waiting_system =
     \<lparr>app = fetchData_start initial_state, timer = True, requests = 1, drawing = [],
      mounted = True\<rparr>"

definition dashboard_system :: "response \<Rightarrow> svg_node list \<Rightarrow> system" where
  "dashboard_system body svg =
     \<lparr>app = loaded body, timer = True, requests = 1, drawing = svg, mounted = True\<rparr>"


definition sample_no_hash :: tx where
  "sample_no_hash = (sample_tx ''10'' False)\<lparr>transaction_hash := None\<rparr>"

section \<open>Rounding to binary64\<close>

text \<open>
  The facts about \<open>round64\<close> that the claims rest on: it is monotone, it leaves binary64
  values as they are, its finite results are multiples of the smallest subnormal, and a
  value that lies within half a spacing of a binary64 value is rounded to it.
\<close>

lemma rne_lower: "\<lfloor>x\<rfloor> \<le> rne x"
  by (simp add: rne_def Let_def)

lemma rne_upper: "rne x \<le> \<lfloor>x\<rfloor> + 1"
  by (simp add: rne_def Let_def)

lemma rne_of_int: "rne (of_int n) = n"
  by (simp add: rne_def Let_def)

lemma rne_mono:
  assumes "x \<le> y"
  shows "rne x \<le> rne y"
proof (cases "\<lfloor>x\<rfloor> = \<lfloor>y\<rfloor>")
  case True
  with assms show ?thesis
    by (auto simp add: rne_def Let_def)
next
  case False
  with assms have "\<lfloor>x\<rfloor> + 1 \<le> \<lfloor>y\<rfloor>"
    using floor_mono [of x y] by linarith
  with rne_upper [of x] rne_lower [of y] show ?thesis
    by linarith
qed

lemma pow2_pos: "0 < pow2 e"
  by (simp add: pow2_def power_int_def)

lemma pow2_mono: "a \<le> b \<Longrightarrow> pow2 a \<le> pow2 b"
  unfolding pow2_def by (rule power_int_increasing) simp_all

lemma pow2_strict_mono: "a < b \<Longrightarrow> pow2 a < pow2 b"
  unfolding pow2_def by (rule power_int_strict_increasing) simp_all

lemma pow2_nonneg_exp: "0 \<le> e \<Longrightarrow> pow2 e = 2 ^ nat e"
  by (simp add: pow2_def power_int_def)

lemma pow2_neg_exp: "e \<le> 0 \<Longrightarrow> pow2 e = 1 / 2 ^ nat (- e)"
  by (cases "e = 0") (simp_all add: pow2_def power_int_def field_simps)

lemma ilog2_ge1:
  assumes "1 \<le> x"
  shows "pow2 (ilog2 x) \<le> x \<and> x < pow2 (ilog2 x + 1)"
proof -
  define m where "m = \<lfloor>x\<rfloor>"
  have m: "0 < m" using assms by (simp add: m_def)
  have e: "ilog2 x = bitlen m - 1" using assms by (simp add: ilog2_def m_def)
  have b1: "1 \<le> bitlen m" using m by (simp add: bitlen_alt_def)
  from bitlen_bounds [OF m] have lo: "2 ^ nat (bitlen m - 1) \<le> m" and hi: "m < 2 ^ nat (bitlen m)"
    by simp_all
  have "pow2 (bitlen m - 1) = of_int (2 ^ nat (bitlen m - 1))"
    using b1 by (simp add: pow2_nonneg_exp)
  also have "\<dots> \<le> of_int m" using lo by (simp only: of_int_le_iff)
  also have "\<dots> \<le> x" by (simp add: m_def)
  finally have L: "pow2 (ilog2 x) \<le> x" by (simp add: e)
  have "m + 1 \<le> 2 ^ nat (bitlen m)" using hi by simp
  then have "(of_int (m + 1) :: rat) \<le> of_int (2 ^ nat (bitlen m))"
    by (simp only: of_int_le_iff)
  moreover have "x < of_int (m + 1)" unfolding m_def by linarith
  moreover have "pow2 (bitlen m) = of_int (2 ^ nat (bitlen m))"
    using b1 by (simp add: pow2_nonneg_exp)
  ultimately have "x < pow2 (ilog2 x + 1)" by (simp add: e)
  with L show ?thesis ..
qed

lemma ilog2_lt1:
  assumes "0 < x" "x < 1"
  shows "pow2 (ilog2 x) \<le> x \<and> x < pow2 (ilog2 x + 1)"
proof -
  define m where "m = \<lfloor>1 / x\<rfloor>"
  define k where "k = - bitlen m"
  have y1: "1 < 1 / x" using assms by simp
  have m: "0 < m" using y1 by (simp add: m_def)
  have b1: "1 \<le> bitlen m" using m by (simp add: bitlen_alt_def)
  from bitlen_bounds [OF m] have lo: "2 ^ nat (bitlen m - 1) \<le> m" and hi: "m < 2 ^ nat (bitlen m)"
    by simp_all
  have "m + 1 \<le> 2 ^ nat (bitlen m)" using hi by simp
  then have "(of_int (m + 1) :: rat) \<le> of_int (2 ^ nat (bitlen m))"
    by (simp only: of_int_le_iff)
  moreover have "1 / x < of_int (m + 1)" unfolding m_def by linarith
  ultimately have "1 / x < 2 ^ nat (bitlen m)" by simp
  then have "1 < x * 2 ^ nat (bitlen m)"
    using assms(1) by (simp add: field_simps)
  then have "1 / 2 ^ nat (bitlen m) < x"
    by (simp add: field_simps)
  moreover have "pow2 k = 1 / 2 ^ nat (bitlen m)"
    using b1 by (simp add: k_def pow2_neg_exp)
  ultimately have L: "pow2 k < x" by simp
  have "(of_int (2 ^ nat (bitlen m - 1)) :: rat) \<le> of_int m" using lo by (simp only: of_int_le_iff)
  also have "\<dots> \<le> 1 / x" by (simp add: m_def)
  finally have "2 ^ nat (bitlen m - 1) \<le> 1 / x" by simp
  then have "x * 2 ^ nat (bitlen m - 1) \<le> 1"
    using assms(1) by (simp add: field_simps)
  then have "x \<le> 1 / 2 ^ nat (bitlen m - 1)"
    by (simp add: field_simps)
  moreover have "pow2 (k + 1) = 1 / 2 ^ nat (bitlen m - 1)"
  proof -
    have "k + 1 \<le> 0" using b1 by (simp add: k_def)
    moreover have "nat (- (k + 1)) = nat (bitlen m - 1)" by (simp add: k_def)
    ultimately show ?thesis by (simp add: pow2_neg_exp)
  qed
  ultimately have U: "x \<le> pow2 (k + 1)" by simp
  have e: "ilog2 x = (if pow2 (k + 1) \<le> x then k + 1 else k)"
    using assms by (simp add: ilog2_def k_def m_def Let_def)
  show ?thesis
  proof (cases "pow2 (k + 1) \<le> x")
    case True
    with U have "x = pow2 (k + 1)" by simp
    moreover have "pow2 (k + 1) < pow2 (k + 1 + 1)" by (rule pow2_strict_mono) simp
    ultimately show ?thesis using True e by simp
  next
    case False
    with L U e show ?thesis by simp
  qed
qed

lemma ilog2_bracket:
  assumes "0 < x"
  shows "pow2 (ilog2 x) \<le> x \<and> x < pow2 (ilog2 x + 1)"
  using assms ilog2_ge1 [of x] ilog2_lt1 [of x] by (cases "1 \<le> x") simp_all

lemma ilog2_unique:
  assumes "pow2 e \<le> x" "x < pow2 (e + 1)"
  shows "ilog2 x = e"
proof -
  have x: "0 < x" using assms(1) pow2_pos [of e] by linarith
  note b = ilog2_bracket [OF x]
  have "\<not> ilog2 x < e"
  proof
    assume "ilog2 x < e"
    then have "pow2 (ilog2 x + 1) \<le> pow2 e" by (intro pow2_mono) simp
    with b assms show False by linarith
  qed
  moreover have "\<not> e < ilog2 x"
  proof
    assume "e < ilog2 x"
    then have "pow2 (e + 1) \<le> pow2 (ilog2 x)" by (intro pow2_mono) simp
    with b assms show False by linarith
  qed
  ultimately show ?thesis by simp
qed

lemma ilog2_mono:
  assumes "0 < x" "x \<le> y"
  shows "ilog2 x \<le> ilog2 y"
proof (rule ccontr)
  assume "\<not> ilog2 x \<le> ilog2 y"
  then have "pow2 (ilog2 y + 1) \<le> pow2 (ilog2 x)" by (intro pow2_mono) simp
  with ilog2_bracket [OF assms(1)] ilog2_bracket [of y] assms show False by linarith
qed


lemma pow2_add: "pow2 (a + b) = pow2 a * pow2 b"
  unfolding pow2_def by (rule power_int_add) simp

lemma pow2_split: "pow2 a = 2 ^ n * pow2 (a - int n)"
proof -
  have "pow2 a = pow2 (int n + (a - int n))" by simp
  also have "\<dots> = pow2 (int n) * pow2 (a - int n)" by (rule pow2_add)
  finally show ?thesis by (simp add: pow2_nonneg_exp)
qed

lemma quantum_pos: "0 < quantum x"
  by (simp add: quantum_def pow2_pos)

lemma round_mag_zero: "round_mag 0 = 0"
  by (simp add: round_mag_def rne_def)

lemma round_mag_nonneg:
  assumes "0 \<le> x"
  shows "0 \<le> round_mag x"
proof -
  have "0 \<le> x / quantum x" using assms quantum_pos [of x] by simp
  then have "rne 0 \<le> rne (x / quantum x)" by (rule rne_mono)
  then have "0 \<le> rne (x / quantum x)" using rne_of_int [of 0] by simp
  then show ?thesis using quantum_pos [of x] by (simp add: round_mag_def)
qed

lemma round_mag_normal:
  assumes "0 < x" "- 1022 \<le> ilog2 x"
  shows "pow2 (ilog2 x) \<le> round_mag x \<and> round_mag x \<le> pow2 (ilog2 x + 1)"
proof -
  define e where "e = ilog2 x"
  define q :: rat where "q = pow2 (e - 52)"
  have q: "quantum x = q" using assms(2) by (simp add: quantum_def expo_def q_def e_def max_def)
  have qpos: "0 < q" by (simp add: q_def pow2_pos)
  have lo: "pow2 e = 2 ^ 52 * q" unfolding q_def using pow2_split [of e 52] by simp
  have hi: "pow2 (e + 1) = 2 ^ 53 * q" unfolding q_def using pow2_split [of "e + 1" 53] by simp
  from ilog2_bracket [OF assms(1)] have "2 ^ 52 * q \<le> x" "x \<le> 2 ^ 53 * q"
    using lo hi by (simp_all add: e_def)
  then have "of_int (2 ^ 52) \<le> x / q" "x / q \<le> of_int (2 ^ 53)"
    using qpos by (simp_all add: field_simps)
  then have "rne (of_int (2 ^ 52)) \<le> rne (x / q)" "rne (x / q) \<le> rne (of_int (2 ^ 53))"
    by (simp_all only: rne_mono)
  then have "2 ^ 52 \<le> rne (x / q)" "rne (x / q) \<le> 2 ^ 53"
    by (simp_all only: rne_of_int)
  then have "(of_int (2 ^ 52) :: rat) \<le> of_int (rne (x / q))"
    "(of_int (rne (x / q)) :: rat) \<le> of_int (2 ^ 53)"
    by (simp_all only: of_int_le_iff)
  then have "2 ^ 52 * q \<le> of_int (rne (x / q)) * q" "of_int (rne (x / q)) * q \<le> 2 ^ 53 * q"
    using qpos by simp_all
  then show ?thesis
    using lo hi by (simp add: round_mag_def q e_def [symmetric])
qed

lemma round_mag_subnormal:
  assumes "0 \<le> x" "x \<le> pow2 (- 1022)" "ilog2 x \<le> - 1022"
  shows "round_mag x \<le> pow2 (- 1022)"
proof -
  define q :: rat where "q = pow2 (- 1074)"
  have q: "quantum x = q" using assms(3) by (simp add: quantum_def expo_def q_def max_def)
  have qpos: "0 < q" by (simp add: q_def pow2_pos)
  have hi: "pow2 (- 1022) = 2 ^ 52 * q" unfolding q_def using pow2_split [of "- 1022" 52] by simp
  have "x / q \<le> of_int (2 ^ 52)"
    using assms(2) qpos hi by (simp add: field_simps)
  then have "rne (x / q) \<le> rne (of_int (2 ^ 52))" by (rule rne_mono)
  then have "rne (x / q) \<le> 2 ^ 52" by (simp only: rne_of_int)
  then have "(of_int (rne (x / q)) :: rat) \<le> of_int (2 ^ 52)" by (simp only: of_int_le_iff)
  then have "of_int (rne (x / q)) * q \<le> 2 ^ 52 * q" using qpos by simp
  then show ?thesis using hi by (simp add: round_mag_def q)
qed

lemma round_mag_upper:
  assumes "0 < x"
  shows "round_mag x \<le> pow2 (expo x + 1)"
proof (cases "- 1022 \<le> ilog2 x")
  case True
  with round_mag_normal [OF assms] show ?thesis by (simp add: expo_def max_def)
next
  case False
  then have e: "ilog2 x < - 1022" by simp
  then have "pow2 (ilog2 x + 1) \<le> pow2 (- 1022)" by (intro pow2_mono) simp
  with ilog2_bracket [OF assms] have "x \<le> pow2 (- 1022)" by linarith
  with assms e have "round_mag x \<le> pow2 (- 1022)" by (intro round_mag_subnormal) simp_all
  also have "pow2 (- 1022) \<le> pow2 (expo x + 1)"
    by (intro pow2_mono) (simp add: expo_def)
  finally show ?thesis .
qed

lemma round_mag_mono_pos:
  assumes "0 < x" "x \<le> y"
  shows "round_mag x \<le> round_mag y"
proof (cases "expo x = expo y")
  case True
  then have q: "quantum x = quantum y" by (simp add: quantum_def)
  have "x / quantum y \<le> y / quantum y"
    using assms(2) quantum_pos [of y] by (simp add: divide_right_mono)
  then have "rne (x / quantum y) \<le> rne (y / quantum y)" by (rule rne_mono)
  then have "(of_int (rne (x / quantum y)) :: rat) \<le> of_int (rne (y / quantum y))"
    by (simp only: of_int_le_iff)
  then show ?thesis
    using quantum_pos [of y] by (simp add: round_mag_def q)
next
  case False
  have y: "0 < y" using assms by simp
  have "expo x \<le> expo y" using ilog2_mono [OF assms] by (simp add: expo_def)
  with False have lt: "expo x < expo y" by simp
  then have n: "- 1022 \<le> ilog2 y" and ey: "expo y = ilog2 y" by (simp_all add: expo_def max_def split: if_splits)
  have "round_mag x \<le> pow2 (expo x + 1)" by (rule round_mag_upper [OF assms(1)])
  also have "pow2 (expo x + 1) \<le> pow2 (expo y)" using lt by (intro pow2_mono) simp
  also have "\<dots> \<le> round_mag y" using round_mag_normal [OF y n] by (simp add: ey)
  finally show ?thesis .
qed

lemma round_mag_mono:
  assumes "0 \<le> x" "x \<le> y"
  shows "round_mag x \<le> round_mag y"
proof (cases "x = 0")
  case True
  with assms round_mag_nonneg [of y] show ?thesis by (simp add: round_mag_zero)
next
  case False
  with assms show ?thesis by (intro round_mag_mono_pos) simp_all
qed

lemma round64_mono:
  assumes "x \<le> y"
  shows "jle (round64 x) (round64 y)"
proof -
  consider "0 < x" | "x \<le> 0" "0 < y" | "y \<le> 0" using assms by linarith
  then show ?thesis
  proof cases
    case 1
    with assms have "round_mag \<bar>x\<bar> \<le> round_mag \<bar>y\<bar>" by (intro round_mag_mono) simp_all
    with 1 assms show ?thesis by (simp add: round64_def Let_def)
  next
    case 2
    have "0 \<le> round_mag \<bar>x\<bar>" "0 \<le> round_mag \<bar>y\<bar>" by (simp_all add: round_mag_nonneg)
    with 2 show ?thesis by (simp add: round64_def Let_def)
  next
    case 3
    with assms have "round_mag \<bar>y\<bar> \<le> round_mag \<bar>x\<bar>" by (intro round_mag_mono) simp_all
    with 3 assms show ?thesis by (simp add: round64_def Let_def)
  qed
qed

lemma round_mag_grid: "on_grid (round_mag x)"
proof -
  define n where "n = nat (expo x + 1022)"
  have "- 1022 \<le> expo x" by (simp add: expo_def)
  then have "expo x - 52 = int n + (- 1074)" by (simp add: n_def)
  then have "quantum x = pow2 (int n + (- 1074))" by (simp only: quantum_def)
  also have "\<dots> = pow2 (int n) * pow2 (- 1074)" by (rule pow2_add)
  finally have "quantum x = of_int (2 ^ n) * pow2 (- 1074)" by (simp add: pow2_nonneg_exp)
  then have "round_mag x / pow2 (- 1074) = of_int (rne (x / quantum x) * 2 ^ n)"
    using pow2_pos [of "- 1074"] by (simp add: round_mag_def)
  then show ?thesis unfolding on_grid_def by (metis Ints_of_int)
qed

lemma round64_grid: "round64 x = Fin y \<Longrightarrow> on_grid y"
  using round_mag_grid [of "\<bar>x\<bar>"]
  by (auto simp add: round64_def Let_def on_grid_def split: if_splits)

lemma round64_min: "round64 (pow2 (- 1074)) = Fin (pow2 (- 1074))"
proof -
  have "pow2 (- 1074) < pow2 (- 1074 + 1)" by (rule pow2_strict_mono) simp
  then have "ilog2 (pow2 (- 1074)) = - 1074" by (intro ilog2_unique) simp_all
  then have q: "quantum (pow2 (- 1074)) = pow2 (- 1074)" by (simp add: quantum_def expo_def)
  have m: "round_mag (pow2 (- 1074)) = pow2 (- 1074)"
    using rne_of_int [of 1] by (simp add: round_mag_def q)
  have "pow2 (- 1074) < pow2 1024" by (rule pow2_strict_mono) simp
  then show ?thesis using pow2_pos [of "- 1074"] by (simp add: round64_def m Let_def)
qed

lemma round64_diff_pos:
  assumes "on_grid a" "on_grid b" "a < b"
  shows "jless (Fin 0) (round64 (b - a))"
proof -
  define g :: rat where "g = pow2 (- 1074)"
  have g: "0 < g" by (simp add: g_def pow2_pos)
  from assms obtain i j :: int where a: "a / g = of_int i" and b: "b / g = of_int j"
    by (auto simp add: on_grid_def g_def Ints_def)
  then have a': "a = of_int i * g" and b': "b = of_int j * g" using g by (simp_all add: field_simps)
  with assms(3) g have "i < j" by simp
  then have "1 \<le> j - i" by simp
  then have "(1::rat) \<le> of_int (j - i)" by (simp only: of_int_1_le_iff)
  then have "g \<le> of_int (j - i) * g" using g by simp
  also have "\<dots> = b - a" by (simp add: a' b' algebra_simps)
  finally have "jle (round64 g) (round64 (b - a))" by (rule round64_mono)
  then have "jle (Fin g) (round64 (b - a))" by (simp add: g_def round64_min)
  then show ?thesis using g by (cases "round64 (b - a)") simp_all
qed

lemma ilog2_less:
  assumes "0 < x" "x < pow2 e"
  shows "ilog2 x < e"
proof (rule ccontr)
  assume "\<not> ilog2 x < e"
  then have "pow2 e \<le> pow2 (ilog2 x)" by (intro pow2_mono) simp
  with ilog2_bracket [OF assms(1)] assms(2) show False by linarith
qed

lemma round_mag_exact:
  assumes "0 < m" "m < 2 ^ 53" "- 1074 \<le> k"
  shows "round_mag (of_int m * pow2 k) = of_int m * pow2 k"
proof -
  define x where "x = of_int m * pow2 k"
  have x: "0 < x" using assms(1) pow2_pos [of k] by (simp add: x_def)
  have "(of_int m :: rat) < of_int (2 ^ 53)" using assms(2) by (simp only: of_int_less_iff)
  then have "x < 2 ^ 53 * pow2 k" using pow2_pos [of k] by (simp add: x_def)
  also have "\<dots> = pow2 (k + 53)" using pow2_split [of "k + 53" 53] by simp
  finally have "ilog2 x < k + 53" by (rule ilog2_less [OF x])
  then have le: "expo x - 52 \<le> k" using assms(3) by (simp add: expo_def)
  define j where "j = nat (k - (expo x - 52))"
  define q where "q = quantum x"
  have qpos: "0 < q" by (simp add: q_def quantum_pos)
  have "k - int j = expo x - 52" using le by (simp add: j_def)
  then have pk: "pow2 k = 2 ^ j * q" using pow2_split [of k j] by (simp add: quantum_def q_def)
  have xq: "x = of_int (m * 2 ^ j) * q" unfolding x_def pk by simp
  then have "x / q = of_int (m * 2 ^ j)" using qpos by simp
  then have "rne (x / q) = m * 2 ^ j" by (simp only: rne_of_int)
  then have "round_mag x = of_int (m * 2 ^ j) * q" by (simp add: round_mag_def q_def)
  then have "round_mag x = x" using xq by simp
  then show ?thesis by (simp add: x_def)
qed

lemma round64_exact_pos:
  assumes "0 < m" "m < 2 ^ 53" "- 1074 \<le> k" "k \<le> 971"
  shows "round64 (of_int m * pow2 k) = Fin (of_int m * pow2 k)"
    and "round64 (- (of_int m * pow2 k)) = Fin (- (of_int m * pow2 k))"
proof -
  define x where "x = of_int m * pow2 k"
  have x: "0 < x" using assms(1) pow2_pos [of k] by (simp add: x_def)
  have "(of_int m :: rat) < of_int (2 ^ 53)" using assms(2) by (simp only: of_int_less_iff)
  then have "x < 2 ^ 53 * pow2 k" using pow2_pos [of k] by (simp add: x_def)
  also have "\<dots> = pow2 (k + 53)" using pow2_split [of "k + 53" 53] by simp
  also have "\<dots> \<le> pow2 1024" using assms(4) by (intro pow2_mono) simp
  finally have b: "x < pow2 1024" .
  have m: "round_mag x = x" unfolding x_def by (rule round_mag_exact [OF assms(1-3)])
  show "round64 (of_int m * pow2 k) = Fin (of_int m * pow2 k)"
    using x b m by (simp add: round64_def Let_def x_def [symmetric])
  show "round64 (- (of_int m * pow2 k)) = Fin (- (of_int m * pow2 k))"
    using x b m by (simp add: round64_def Let_def x_def [symmetric])
qed

lemma round64_zero: "round64 0 = Fin 0"
  using pow2_pos [of 1024] by (simp add: round64_def round_mag_zero)

lemma round64_exact:
  assumes "\<bar>m\<bar> < 2 ^ 53" "- 1074 \<le> k" "k \<le> 971"
  shows "round64 (of_int m * pow2 k) = Fin (of_int m * pow2 k)"
proof -
  consider "m = 0" | "0 < m" | "m < 0" by linarith
  then show ?thesis
  proof cases
    case 1
    then show ?thesis by (simp add: round64_zero)
  next
    case 2
    with assms show ?thesis by (intro round64_exact_pos) simp_all
  next
    case 3
    with assms have "round64 (- (of_int (- m) * pow2 k)) = Fin (- (of_int (- m) * pow2 k))"
      by (intro round64_exact_pos) simp_all
    then show ?thesis by simp
  qed
qed

lemma pow2_0: "pow2 0 = 1"
  by (simp add: pow2_def)

lemma round64_int: "\<bar>m\<bar> < 2 ^ 53 \<Longrightarrow> round64 (of_int m) = Fin (of_int m)"
  using round64_exact [of m 0] by (simp add: pow2_0)

lemma round64_numeral: "(numeral w :: int) < 2 ^ 53 \<Longrightarrow> round64 (numeral w) = Fin (numeral w)"
  using round64_int [of "numeral w"] by simp

lemma round64_neg_numeral: "(numeral w :: int) < 2 ^ 53 \<Longrightarrow> round64 (- numeral w) = Fin (- numeral w)"
  using round64_int [of "- numeral w"] by simp

lemma round64_one: "round64 1 = Fin 1"
  using round64_int [of 1] by simp

lemma rne_near:
  assumes "of_int n - 1 / 2 < x" "x < of_int n + 1 / 2"
  shows "rne x = n"
proof -
  have "\<lfloor>x\<rfloor> = n \<or> \<lfloor>x\<rfloor> = n - 1" using assms by linarith
  then show ?thesis
  proof
    assume f: "\<lfloor>x\<rfloor> = n"
    with assms show ?thesis by (simp add: rne_def Let_def)
  next
    assume f: "\<lfloor>x\<rfloor> = n - 1"
    with assms show ?thesis by (simp add: rne_def Let_def)
  qed
qed

lemma round64_near:
  assumes "pow2 e \<le> x" "x < pow2 (e + 1)" "- 1022 \<le> e" "e < 1023"
    and "(of_int n - 1 / 2) * pow2 (e - 52) < x" "x < (of_int n + 1 / 2) * pow2 (e - 52)"
  shows "round64 x = Fin (of_int n * pow2 (e - 52))"
proof -
  have x: "0 < x" using assms(1) pow2_pos [of e] by linarith
  have e: "ilog2 x = e" using assms(1,2) by (rule ilog2_unique)
  then have q: "quantum x = pow2 (e - 52)" using assms(3) by (simp add: quantum_def expo_def)
  have "of_int n - 1 / 2 < x / pow2 (e - 52)" "x / pow2 (e - 52) < of_int n + 1 / 2"
    using assms(5,6) pow2_pos [of "e - 52"] by (simp_all add: field_simps)
  then have "rne (x / pow2 (e - 52)) = n" by (rule rne_near)
  then have m: "round_mag x = of_int n * pow2 (e - 52)" by (simp add: round_mag_def q)
  have "round_mag x \<le> pow2 (e + 1)" using round_mag_normal [OF x] assms(3) e by simp
  also have "\<dots> < pow2 1024" using assms(4) by (intro pow2_strict_mono) simp
  finally show ?thesis using x m by (simp add: round64_def Let_def)
qed

section \<open>Order and arithmetic on Number values\<close>

lemma round64_not_NaN: "round64 x \<noteq> NaN"
  by (simp add: round64_def Let_def)

lemma jle_trans: "jle a b \<Longrightarrow> jle b c \<Longrightarrow> jle a c"
  by (cases a; cases b; cases c) simp_all

lemma jless_imp_jle: "jless a b \<Longrightarrow> jle a b"
  by (cases a; cases b) simp_all

lemma jless_jle_trans: "jless a b \<Longrightarrow> jle b c \<Longrightarrow> jless a c"
  by (cases a; cases b; cases c) simp_all

lemma jle_jless_trans: "jle a b \<Longrightarrow> jless b c \<Longrightarrow> jless a c"
  by (cases a; cases b; cases c) simp_all

lemma jless_not_jle: "jless a b \<Longrightarrow> \<not> jle b a"
  by (cases a; cases b) simp_all

lemma not_jless_iff_jle: "a \<noteq> NaN \<Longrightarrow> b \<noteq> NaN \<Longrightarrow> (\<not> jless a b) = jle b a"
  by (cases a; cases b) auto

lemma jle_total: "a \<noteq> NaN \<Longrightarrow> b \<noteq> NaN \<Longrightarrow> jle a b \<or> jle b a"
  by (cases a; cases b) auto

lemma jle_round64_PInf: "jle (round64 x) PInf"
  by (cases "round64 x") (simp_all add: round64_not_NaN)

lemma jdiv_mono:
  assumes "jle a b" "0 < c"
  shows "jle (jdiv a (Fin c)) (jdiv b (Fin c))"
proof (cases a)
  case (Fin x)
  note a = this
  show ?thesis
  proof (cases b)
    case (Fin y)
    with a assms have "x / c \<le> y / c" by (simp add: divide_right_mono)
    then have "jle (round64 (x / c)) (round64 (y / c))" by (rule round64_mono)
    with a Fin assms(2) show ?thesis by simp
  next
    case PInf
    with a assms(2) show ?thesis by (simp add: jle_round64_PInf)
  qed (use a assms in simp_all)
next
  case NInf
  with assms show ?thesis by (cases b) (simp_all add: round64_not_NaN)
qed (use assms in simp_all)

lemma jmul_mono:
  assumes "jle a b" "0 < c"
  shows "jle (jmul a (Fin c)) (jmul b (Fin c))"
proof (cases a)
  case (Fin x)
  note a = this
  show ?thesis
  proof (cases b)
    case (Fin y)
    with a assms have "x * c \<le> y * c" by simp
    then have "jle (round64 (x * c)) (round64 (y * c))" by (rule round64_mono)
    with a Fin show ?thesis by simp
  next
    case PInf
    with a assms(2) show ?thesis by (simp add: jle_round64_PInf)
  qed (use a assms in simp_all)
next
  case NInf
  with assms show ?thesis by (cases b) (simp_all add: round64_not_NaN)
qed (use assms in simp_all)

lemma jadd_mono:
  assumes "jle a b"
  shows "jle (jadd (Fin r) a) (jadd (Fin r) b)"
proof (cases a)
  case (Fin x)
  note a = this
  show ?thesis
  proof (cases b)
    case (Fin y)
    with a assms have "r + x \<le> r + y" by simp
    then have "jle (round64 (r + x)) (round64 (r + y))" by (rule round64_mono)
    with a Fin show ?thesis by simp
  next
    case PInf
    with a show ?thesis by (simp add: jle_round64_PInf)
  qed (use a assms in simp_all)
next
  case NInf
  with assms show ?thesis by (cases b) (simp_all add: round64_not_NaN)
qed (use assms in simp_all)

lemma jmul_commute: "jmul a b = jmul b a"
  by (cases a; cases b) (simp_all add: mult.commute)

lemma on_grid_uminus: "on_grid (- x) = on_grid x"
proof -
  have "(- (x / pow2 (- 1074)) \<in> \<int>) = (x / pow2 (- 1074) \<in> \<int>)" by (rule minus_in_Ints_iff)
  then show ?thesis by (simp add: on_grid_def)
qed

lemma is_double_grid: "is_double x \<Longrightarrow> on_grid x"
  unfolding is_double_def by (rule round64_grid)

text \<open>
  The sign of a rounded difference of two binary64 values is the sign of the exact
  difference: gradual underflow keeps a non-zero difference away from zero.
\<close>

lemma jsub_pos_iff:
  assumes "on_grid x" "on_grid y"
  shows "jless (Fin 0) (jsub (Fin x) (Fin y)) = (y < x)"
proof (cases "y < x")
  case True
  with assms show ?thesis using round64_diff_pos [of y x] by (simp add: jsub_def)
next
  case False
  then have "x - y \<le> 0" by simp
  then have "jle (round64 (x - y)) (round64 0)" by (rule round64_mono)
  then have "jle (round64 (x - y)) (Fin 0)" by (simp add: round64_zero)
  then have "\<not> jless (Fin 0) (round64 (x - y))" using jless_not_jle by blast
  with False show ?thesis by (simp add: jsub_def)
qed

subsection \<open>Range of parseFloat\<close>

lemma str_unsigned_grid: "str_unsigned s = Some (Fin y) \<Longrightarrow> on_grid y"
  by (auto simp add: str_unsigned_def Let_def split: if_splits dest: round64_grid)

lemma parseFloat_grid: "parseFloat s = Fin y \<Longrightarrow> on_grid y"
proof -
  have neg: "on_grid y" if "jneg v = Fin y" "str_unsigned r = Some v" for v r
  proof (cases v)
    case (Fin z)
    with that have "on_grid z" "y = - z" by (auto dest: str_unsigned_grid)
    then show ?thesis by (simp add: on_grid_uminus)
  qed (use that in simp_all)
  assume "parseFloat s = Fin y"
  then show ?thesis
    by (auto simp add: parseFloat_def Let_def split: list.splits if_splits option.splits
        dest: str_unsigned_grid neg)
qed

lemma parseFloat_field_grid: "parseFloat_field f = Fin y \<Longrightarrow> on_grid y"
  by (cases f) (auto simp add: parseFloat_field_def dest: parseFloat_grid)

lemma tx_score_grid: "tx_score t = Fin y \<Longrightarrow> on_grid y"
  unfolding tx_score_def by (rule parseFloat_field_grid)

section \<open>Values of the literals and layout constants\<close>

lemma lit_0_6_val: "lit_0_6 = Fin (5404319552844595 / 9007199254740992)"
proof -
  have "round64 (6 / 10) = Fin (of_int 5404319552844595 * pow2 (- 1 - 52))"
    by (rule round64_near) (simp_all add: pow2_neg_exp pow2_nonneg_exp)
  then show ?thesis by (simp add: lit_0_6_def pow2_neg_exp)
qed

lemma lit_0_9_val: "lit_0_9 = Fin (8106479329266893 / 9007199254740992)"
proof -
  have "round64 (9 / 10) = Fin (of_int 8106479329266893 * pow2 (- 1 - 52))"
    by (rule round64_near) (simp_all add: pow2_neg_exp pow2_nonneg_exp)
  then show ?thesis by (simp add: lit_0_9_def pow2_neg_exp)
qed

lemma radius_val: "radius = Fin 160"
  by (simp add: radius_def width_def height_def jmin_def jsub_def round64_numeral)

lemma innerRadius_val: "innerRadius = Fin 96"
proof -
  have "round64 (160 * (5404319552844595 / 9007199254740992))
        = Fin (of_int 6755399441055744 * pow2 (6 - 52))"
    by (rule round64_near) (simp_all add: pow2_neg_exp pow2_nonneg_exp)
  then have "jmul (Fin 160) (Fin (5404319552844595 / 9007199254740992)) = Fin 96"
    by (simp add: pow2_neg_exp)
  then show ?thesis by (simp only: innerRadius_def radius_val lit_0_6_val)
qed

lemma band_width_val: "jsub radius innerRadius = Fin 64"
  by (simp add: radius_val innerRadius_val jsub_def round64_numeral)

subsection \<open>Parsing the sample scores\<close>

lemmas parse_defs =
  parseFloat_field_def parseFloat_def str_unsigned_def is_ws_def is_digit_def digits_val_def
  exponent_part_def pow10_def

lemma parse_0: "parseFloat ''0'' = Fin 0"
  by (simp add: parse_defs round64_zero)

lemma parse_2: "parseFloat ''2'' = Fin 2"
  by (simp add: parse_defs round64_numeral)

lemma parse_3: "parseFloat ''3'' = Fin 3"
  by (simp add: parse_defs round64_numeral)

lemma parse_10: "parseFloat ''10'' = Fin 10"
  by (simp add: parse_defs round64_numeral)

lemma parse_50: "parseFloat ''50'' = Fin 50"
  by (simp add: parse_defs round64_numeral)

lemma parse_90: "parseFloat ''90'' = Fin 90"
  by (simp add: parse_defs round64_numeral)

lemma parse_200: "parseFloat ''200'' = Fin 200"
  by (simp add: parse_defs round64_numeral)

lemma parse_abc: "parseFloat ''abc'' = NaN"
  by (simp add: parse_defs)

lemma parse_tiny: "parseFloat ''0.0000000000000001'' = round64 (1 / 10 ^ 16)"
  by (simp add: parse_defs)

lemma tx_score_sample: "tx_score (sample_tx p a) = parseFloat p"
  by (simp add: tx_score_def sample_tx_def parseFloat_field_def)

lemma is_anomaly_sample: "is_anomaly (sample_tx p a) = a"
  by (simp add: sample_tx_def)

section \<open>Properties of the projection\<close>

lemma round64_between:
  assumes "a \<le> x" "x \<le> b" "round64 a = Fin a" "round64 b = Fin b'"
  shows "\<exists>z. round64 x = Fin z \<and> a \<le> z \<and> z \<le> b'"
proof -
  have "jle (Fin a) (round64 x)" using round64_mono [OF assms(1)] by (simp add: assms(3))
  moreover have "jle (round64 x) (Fin b')" using round64_mono [OF assms(2)] by (simp add: assms(4))
  ultimately show ?thesis by (cases "round64 x") simp_all
qed

lemma ratio_bounds:
  assumes "jle (Fin 0) s" "jle s (Fin 100)"
  shows "jle (Fin 0) (jdiv s (Fin 100))" and "jle (jdiv s (Fin 100)) (Fin 1)"
proof -
  have "jle (jdiv (Fin 0) (Fin 100)) (jdiv s (Fin 100))" using assms(1) by (rule jdiv_mono) simp
  then show "jle (Fin 0) (jdiv s (Fin 100))" by (simp add: round64_zero)
  have "jle (jdiv s (Fin 100)) (jdiv (Fin 100) (Fin 100))" using assms(2) by (rule jdiv_mono) simp
  then show "jle (jdiv s (Fin 100)) (Fin 1)" by (simp add: round64_one)
qed

lemma anomaly_bounds:
  assumes "jle (Fin 0) s" "jle s (Fin 100)"
  shows "jle (Fin 96) (jadd (Fin 96) (jmul (jdiv s (Fin 100)) (Fin 64)))"
    and "jle (jadd (Fin 96) (jmul (jdiv s (Fin 100)) (Fin 64))) (Fin 160)"
proof -
  note r = ratio_bounds [OF assms]
  have "jle (jmul (Fin 0) (Fin 64)) (jmul (jdiv s (Fin 100)) (Fin 64))"
    using r(1) by (rule jmul_mono) simp
  then have lo: "jle (Fin 0) (jmul (jdiv s (Fin 100)) (Fin 64))" by (simp add: round64_zero)
  have "jle (jmul (jdiv s (Fin 100)) (Fin 64)) (jmul (Fin 1) (Fin 64))"
    using r(2) by (rule jmul_mono) simp
  then have hi: "jle (jmul (jdiv s (Fin 100)) (Fin 64)) (Fin 64)" by (simp add: round64_numeral)
  from jadd_mono [OF lo, of 96]
  show "jle (Fin 96) (jadd (Fin 96) (jmul (jdiv s (Fin 100)) (Fin 64)))"
    by (simp add: round64_numeral)
  from jadd_mono [OF hi, of 96]
  show "jle (jadd (Fin 96) (jmul (jdiv s (Fin 100)) (Fin 64))) (Fin 160)"
    by (simp add: round64_numeral)
qed

lemma normal_bounds:
  assumes "jle (Fin 0) s" "jle s (Fin 100)"
  shows "jle (Fin 0) (jmul (jmul (jdiv s (Fin 100)) (Fin 96)) lit_0_9)"
    and "jle (jmul (jmul (jdiv s (Fin 100)) (Fin 96)) lit_0_9) (jmul (Fin 96) lit_0_9)"
proof -
  note r = ratio_bounds [OF assms]
  have "jle (jmul (Fin 0) (Fin 96)) (jmul (jdiv s (Fin 100)) (Fin 96))"
    using r(1) by (rule jmul_mono) simp
  then have lo: "jle (Fin 0) (jmul (jdiv s (Fin 100)) (Fin 96))" by (simp add: round64_zero)
  have "jle (jmul (jdiv s (Fin 100)) (Fin 96)) (jmul (Fin 1) (Fin 96))"
    using r(2) by (rule jmul_mono) simp
  then have hi: "jle (jmul (jdiv s (Fin 100)) (Fin 96)) (Fin 96)" by (simp add: round64_numeral)
  have "jle (jmul (Fin 0) (Fin (8106479329266893 / 9007199254740992)))
          (jmul (jmul (jdiv s (Fin 100)) (Fin 96)) (Fin (8106479329266893 / 9007199254740992)))"
    using lo by (rule jmul_mono) simp
  then show "jle (Fin 0) (jmul (jmul (jdiv s (Fin 100)) (Fin 96)) lit_0_9)"
    by (simp add: lit_0_9_val round64_zero)
  have "jle (jmul (jmul (jdiv s (Fin 100)) (Fin 96)) (Fin (8106479329266893 / 9007199254740992)))
          (jmul (Fin 96) (Fin (8106479329266893 / 9007199254740992)))"
    using hi by (rule jmul_mono) simp
  then show "jle (jmul (jmul (jdiv s (Fin 100)) (Fin 96)) lit_0_9) (jmul (Fin 96) lit_0_9)"
    by (simp only: lit_0_9_val)
qed

lemma normal_cap_below_90: "jle (jmul (Fin 96) lit_0_9) (Fin 90)"
proof -
  have "96 * (8106479329266893 / 9007199254740992) \<le> (90::rat)" by simp
  then have "jle (round64 (96 * (8106479329266893 / 9007199254740992))) (round64 90)"
    by (rule round64_mono)
  then show ?thesis by (simp add: lit_0_9_val round64_numeral)
qed

lemma points_nth:
  assumes "i < length txs"
  shows "points m txs ! i = project_point m i (txs ! i)"
  using assms by (simp add: points_def nth_enumerate_eq)

lemma length_points: "length (points m txs) = length txs"
  by (simp add: points_def)

subsection \<open>Scores below the resolution of the distance\<close>

text \<open>
  The spacing of the binary64 values around 96 is \<open>pow2 (- 46)\<close>: an anomalous score of
  at most \<open>pow2 (- 53)\<close> adds less than half of it to 96, and the sum is rounded to 96.
\<close>

lemma round64_pow2:
  assumes "- 1074 \<le> k" "k \<le> 971"
  shows "round64 (pow2 k) = Fin (pow2 k)"
  using round64_exact [of 1 k] assms by simp

lemma anomaly_tiny:
  assumes "0 \<le> s" "s \<le> pow2 (- 53)"
  shows "jadd (Fin 96) (jmul (jdiv (Fin s) (Fin 100)) (Fin 64)) = Fin 96"
proof -
  have p53: "pow2 (- 53) = 1 / 2 ^ 53" and p59: "pow2 (- 59) = 1 / 2 ^ 59"
    by (simp_all add: pow2_neg_exp)
  have "0 \<le> s / 100" using assms(1) by simp
  moreover have "s / 100 \<le> pow2 (- 59)" using assms(2) by (simp add: p53 p59)
  moreover have "round64 (pow2 (- 59)) = Fin (pow2 (- 59))" by (rule round64_pow2) simp_all
  ultimately obtain u where u: "round64 (s / 100) = Fin u" "0 \<le> u" "u \<le> pow2 (- 59)"
    using round64_between [of 0 "s / 100" "pow2 (- 59)"] by (auto simp add: round64_zero)
  have "0 \<le> u * 64" using u(2) by simp
  moreover have "u * 64 \<le> pow2 (- 53)" using u(3) by (simp add: p53 p59)
  moreover have "round64 (pow2 (- 53)) = Fin (pow2 (- 53))" by (rule round64_pow2) simp_all
  ultimately obtain v where v: "round64 (u * 64) = Fin v" "0 \<le> v" "v \<le> pow2 (- 53)"
    using round64_between [of 0 "u * 64" "pow2 (- 53)"] by (auto simp add: round64_zero)
  have "round64 (96 + 1 / 2 ^ 53) = Fin (of_int 6755399441055744 * pow2 (6 - 52))"
    by (rule round64_near) (simp_all add: pow2_neg_exp pow2_nonneg_exp)
  then have top: "round64 (96 + pow2 (- 53)) = Fin 96" by (simp add: pow2_neg_exp)
  have "96 \<le> 96 + v" using v(2) by simp
  moreover have "96 + v \<le> 96 + pow2 (- 53)" using v(3) by simp
  moreover have "round64 96 = Fin 96" by (simp add: round64_numeral)
  ultimately obtain w where w: "round64 (96 + v) = Fin w" "96 \<le> w" "w \<le> 96"
    using round64_between [of 96 "96 + v" "96 + pow2 (- 53)" 96] top by auto
  then have "round64 (96 + v) = Fin 96" by simp
  then show ?thesis by (simp add: u(1) v(1))
qed

lemma tiny_score:
  "\<exists>s. parseFloat ''0.0000000000000001'' = Fin s \<and> 0 < s \<and> s \<le> pow2 (- 53)"
proof -
  have p53: "pow2 (- 53) = 1 / 2 ^ 53" and p54: "pow2 (- 54) = 1 / 2 ^ 54"
    by (simp_all add: pow2_neg_exp)
  have "pow2 (- 54) \<le> 1 / 10 ^ 16" by (simp add: p54)
  moreover have "(1::rat) / 10 ^ 16 \<le> pow2 (- 53)" by (simp add: p53)
  moreover have "round64 (pow2 (- 54)) = Fin (pow2 (- 54))" by (rule round64_pow2) simp_all
  moreover have "round64 (pow2 (- 53)) = Fin (pow2 (- 53))" by (rule round64_pow2) simp_all
  ultimately obtain z where z: "round64 (1 / 10 ^ 16) = Fin z" "pow2 (- 54) \<le> z" "z \<le> pow2 (- 53)"
    using round64_between [of "pow2 (- 54)" "1 / 10 ^ 16" "pow2 (- 53)" "pow2 (- 53)"] by auto
  have "0 < z" using z(2) pow2_pos [of "- 54"] by linarith
  with z show ?thesis by (auto simp add: parse_tiny)
qed

lemma band_width_pos:
  assumes "is_double R" "is_double r" "0 < r" "r < R"
  shows "\<exists>c. jsub (Fin R) (Fin r) = Fin c \<and> 0 < c"
proof -
  have g: "on_grid r" "on_grid R" using assms(1,2) by (simp_all add: is_double_grid)
  then have pos: "jless (Fin 0) (round64 (R - r))" using assms(4) by (rule round64_diff_pos)
  have "R - r \<le> R" using assms(3) by simp
  then have "jle (round64 (R - r)) (round64 R)" by (rule round64_mono)
  then have "jle (round64 (R - r)) (Fin R)" using assms(1) by (simp add: is_double_def)
  with pos have "\<exists>c. round64 (R - r) = Fin c \<and> 0 < c" by (cases "round64 (R - r)") simp_all
  then show ?thesis by (simp add: jsub_def)
qed

section \<open>The rounding error\<close>

lemma rne_error: "\<bar>of_int (rne y) - y\<bar> \<le> (1 / 2 :: rat)"
proof -
  have "of_int \<lfloor>y\<rfloor> \<le> y" "y < of_int \<lfloor>y\<rfloor> + 1" by linarith+
  then show ?thesis by (auto simp add: rne_def Let_def)
qed

text \<open>
  A value below \<open>pow2 E\<close> is rounded with an error of at most half the spacing of the
  binary64 values below \<open>pow2 E\<close>.
\<close>

lemma round64_error:
  assumes "0 \<le> x" "x < pow2 E" "- 1021 \<le> E" "E \<le> 971"
  shows "\<exists>z. round64 x = Fin z \<and> \<bar>z - x\<bar> \<le> pow2 (E - 54) \<and> 0 \<le> z \<and> z \<le> pow2 E"
proof (cases "x = 0")
  case True
  then show ?thesis using pow2_pos [of "E - 54"] pow2_pos [of E] by (simp add: round64_zero)
next
  case False
  with assms(1) have x: "0 < x" by simp
  define q where "q = quantum x"
  have qpos: "0 < q" by (simp add: q_def quantum_pos)
  have "ilog2 x < E" using x assms(2) by (rule ilog2_less)
  then have e: "expo x \<le> E - 1" using assms(3) by (simp add: expo_def)
  then have "q \<le> pow2 (E - 53)" unfolding q_def quantum_def by (intro pow2_mono) simp
  moreover have "pow2 (E - 53) = 2 * pow2 (E - 54)" using pow2_split [of "E - 53" 1] by simp
  ultimately have qh: "q / 2 \<le> pow2 (E - 54)" by simp
  have "round_mag x - x = (of_int (rne (x / q)) - x / q) * q"
    using qpos by (simp add: round_mag_def q_def algebra_simps)
  then have "\<bar>round_mag x - x\<bar> = \<bar>of_int (rne (x / q)) - x / q\<bar> * q"
    using qpos by (simp add: abs_mult)
  also have "\<dots> \<le> (1 / 2) * q"
    using rne_error [of "x / q"] qpos by (intro mult_right_mono) simp_all
  finally have err: "\<bar>round_mag x - x\<bar> \<le> pow2 (E - 54)" using qh by simp
  have "round_mag x \<le> pow2 (expo x + 1)" by (rule round_mag_upper [OF x])
  also have "\<dots> \<le> pow2 E" using e by (intro pow2_mono) simp
  finally have up: "round_mag x \<le> pow2 E" .
  have "pow2 E < pow2 1024" using assms(4) by (intro pow2_strict_mono) simp
  with up have "round_mag x < pow2 1024" by simp
  then have "round64 x = Fin (round_mag x)" using x by (simp add: round64_def Let_def)
  moreover have "0 \<le> round_mag x" using assms(1) by (rule round_mag_nonneg)
  ultimately show ?thesis using err up by simp
qed

lemma ratio_error:
  assumes "0 \<le> s" "s \<le> 100"
  shows "\<exists>u. jdiv (Fin s) (Fin 100) = Fin u \<and> \<bar>u - s / 100\<bar> \<le> 1 / 2 ^ 53 \<and> 0 \<le> u \<and> u \<le> 2"
proof -
  have "0 \<le> s / 100" "s / 100 < pow2 1" using assms by (simp_all add: pow2_nonneg_exp)
  from round64_error [OF this] show ?thesis by (simp add: pow2_nonneg_exp pow2_neg_exp)
qed

lemma anomaly_separated:
  assumes "0 \<le> s1" "s1 + 1 / 10 ^ 12 \<le> s2" "s2 \<le> 100"
  shows "jless (jadd (Fin 96) (jmul (jdiv (Fin s1) (Fin 100)) (Fin 64)))
           (jadd (Fin 96) (jmul (jdiv (Fin s2) (Fin 100)) (Fin 64)))"
proof -
  have r1: "0 \<le> s1" "s1 \<le> 100" and r2: "0 \<le> s2" "s2 \<le> 100" using assms by simp_all
  obtain u1 where u1: "jdiv (Fin s1) (Fin 100) = Fin u1" "\<bar>u1 - s1 / 100\<bar> \<le> 1 / 2 ^ 53"
    "0 \<le> u1" "u1 \<le> 2"
    using ratio_error [OF r1] by blast
  obtain u2 where u2: "jdiv (Fin s2) (Fin 100) = Fin u2" "\<bar>u2 - s2 / 100\<bar> \<le> 1 / 2 ^ 53"
    "0 \<le> u2" "u2 \<le> 2"
    using ratio_error [OF r2] by blast
  have b: "0 \<le> u * 64" "u * 64 < pow2 8" if "0 \<le> u" "u \<le> 2" for u :: rat
    using that by (simp_all add: pow2_nonneg_exp)
  obtain v1 where v1: "round64 (u1 * 64) = Fin v1" "\<bar>v1 - u1 * 64\<bar> \<le> 1 / 2 ^ 46"
    "0 \<le> v1" "v1 \<le> 256"
    using round64_error [OF b [OF u1(3,4)]] by (auto simp add: pow2_nonneg_exp pow2_neg_exp)
  obtain v2 where v2: "round64 (u2 * 64) = Fin v2" "\<bar>v2 - u2 * 64\<bar> \<le> 1 / 2 ^ 46"
    "0 \<le> v2" "v2 \<le> 256"
    using round64_error [OF b [OF u2(3,4)]] by (auto simp add: pow2_nonneg_exp pow2_neg_exp)
  have c: "0 \<le> 96 + v" "96 + v < pow2 9" if "0 \<le> v" "v \<le> 256" for v :: rat
    using that by (simp_all add: pow2_nonneg_exp)
  obtain w1 where w1: "round64 (96 + v1) = Fin w1" "\<bar>w1 - (96 + v1)\<bar> \<le> 1 / 2 ^ 45"
    using round64_error [OF c [OF v1(3,4)]] by (auto simp add: pow2_nonneg_exp pow2_neg_exp)
  obtain w2 where w2: "round64 (96 + v2) = Fin w2" "\<bar>w2 - (96 + v2)\<bar> \<le> 1 / 2 ^ 45"
    using round64_error [OF c [OF v2(3,4)]] by (auto simp add: pow2_nonneg_exp pow2_neg_exp)
  have "s2 / 100 - s1 / 100 \<ge> 1 / 10 ^ 14" using assms(2) by simp
  then have "w1 < w2"
    using u1(2) u2(2) v1(2) v2(2) w1(2) w2(2) unfolding abs_le_iff by simp
  then show ?thesis using u1(1) u2(1) v1(1) v2(1) w1(1) w2(1) by simp
qed

lemma normal_separated:
  assumes "0 \<le> s1" "s1 + 1 / 10 ^ 12 \<le> s2" "s2 \<le> 100"
  shows "jless (jmul (jmul (jdiv (Fin s1) (Fin 100)) (Fin 96)) lit_0_9)
           (jmul (jmul (jdiv (Fin s2) (Fin 100)) (Fin 96)) lit_0_9)"
proof -
  define c :: rat where "c = 8106479329266893 / 9007199254740992"
  have c: "1 / 2 \<le> c" "c \<le> 1" by (simp_all add: c_def)
  have l: "lit_0_9 = Fin c" by (simp add: lit_0_9_val c_def)
  have r1: "0 \<le> s1" "s1 \<le> 100" and r2: "0 \<le> s2" "s2 \<le> 100" using assms by simp_all
  obtain u1 where u1: "jdiv (Fin s1) (Fin 100) = Fin u1" "\<bar>u1 - s1 / 100\<bar> \<le> 1 / 2 ^ 53"
    "0 \<le> u1" "u1 \<le> 2"
    using ratio_error [OF r1] by blast
  obtain u2 where u2: "jdiv (Fin s2) (Fin 100) = Fin u2" "\<bar>u2 - s2 / 100\<bar> \<le> 1 / 2 ^ 53"
    "0 \<le> u2" "u2 \<le> 2"
    using ratio_error [OF r2] by blast
  have b: "0 \<le> u * 96" "u * 96 < pow2 8" if "0 \<le> u" "u \<le> 2" for u :: rat
    using that by (simp_all add: pow2_nonneg_exp)
  obtain v1 where v1: "round64 (u1 * 96) = Fin v1" "\<bar>v1 - u1 * 96\<bar> \<le> 1 / 2 ^ 46"
    "0 \<le> v1" "v1 \<le> 256"
    using round64_error [OF b [OF u1(3,4)]] by (auto simp add: pow2_nonneg_exp pow2_neg_exp)
  obtain v2 where v2: "round64 (u2 * 96) = Fin v2" "\<bar>v2 - u2 * 96\<bar> \<le> 1 / 2 ^ 46"
    "0 \<le> v2" "v2 \<le> 256"
    using round64_error [OF b [OF u2(3,4)]] by (auto simp add: pow2_nonneg_exp pow2_neg_exp)
  have d: "0 \<le> v * c" "v * c < pow2 9" if "0 \<le> v" "v \<le> 256" for v :: rat
  proof -
    show "0 \<le> v * c" using that c by simp
    have "v * c \<le> 256 * 1" using that c by (intro mult_mono) simp_all
    then show "v * c < pow2 9" by (simp add: pow2_nonneg_exp)
  qed
  obtain w1 where w1: "round64 (v1 * c) = Fin w1" "\<bar>w1 - v1 * c\<bar> \<le> 1 / 2 ^ 45"
    using round64_error [OF d [OF v1(3,4)]] by (auto simp add: pow2_nonneg_exp pow2_neg_exp)
  obtain w2 where w2: "round64 (v2 * c) = Fin w2" "\<bar>w2 - v2 * c\<bar> \<le> 1 / 2 ^ 45"
    using round64_error [OF d [OF v2(3,4)]] by (auto simp add: pow2_nonneg_exp pow2_neg_exp)
  have "s2 / 100 - s1 / 100 \<ge> 1 / 10 ^ 14" using assms(2) by simp
  then have "v2 - v1 \<ge> 96 / 10 ^ 14 - 96 * 2 / 2 ^ 53 - 2 / 2 ^ 46"
    using u1(2) u2(2) v1(2) v2(2) unfolding abs_le_iff by simp
  then have g: "v2 - v1 \<ge> 1 / 2 ^ 41" by simp
  have "(v2 - v1) * c \<ge> 1 / 2 ^ 41 * (1 / 2)"
    using g c(1) by (intro mult_mono) simp_all
  then have "v2 * c - v1 * c \<ge> 1 / 2 ^ 42" by (simp add: algebra_simps)
  then have "w1 < w2" using w1(2) w2(2) unfolding abs_le_iff by simp
  then show ?thesis using u1(1) u2(1) v1(1) v2(1) w1(1) w2(1) by (simp add: l)
qed

section \<open>The distance expression\<close>

text \<open>The two branches of the distance expression with the layout constants of the code.\<close>

lemma distance_val:
  "distance radius innerRadius s b =
     (if b then jadd (Fin 96) (jmul (jdiv s (Fin 100)) (Fin 64))
      else jmul (jmul (jdiv s (Fin 100)) (Fin 96)) lit_0_9)"
  using band_width_val by (simp only: distance_def innerRadius_val)

lemma anomaly_expression:
  "jadd innerRadius (jmul (jdiv s (Fin 100)) (jsub radius innerRadius))
     = jadd (Fin 96) (jmul (jdiv s (Fin 100)) (Fin 64))"
  using band_width_val by (simp only: innerRadius_val)

lemma normal_expression:
  "jmul (jmul (jdiv s (Fin 100)) innerRadius) lit_0_9
     = jmul (jmul (jdiv s (Fin 100)) (Fin 96)) lit_0_9"
  by (simp only: innerRadius_val)

subsection \<open>The two bands\<close>

lemma anomaly_in_band:
  assumes "jle (Fin 0) s" "jle s (Fin 100)"
  shows "jle innerRadius (jadd innerRadius (jmul (jdiv s (Fin 100)) (jsub radius innerRadius)))"
    and "jle (jadd innerRadius (jmul (jdiv s (Fin 100)) (jsub radius innerRadius))) radius"
proof -
  show "jle innerRadius (jadd innerRadius (jmul (jdiv s (Fin 100)) (jsub radius innerRadius)))"
    unfolding anomaly_expression unfolding innerRadius_val
    by (rule anomaly_bounds(1) [OF assms])
  show "jle (jadd innerRadius (jmul (jdiv s (Fin 100)) (jsub radius innerRadius))) radius"
    unfolding anomaly_expression unfolding radius_val
    by (rule anomaly_bounds(2) [OF assms])
qed

lemma normal_in_disc:
  assumes "jle (Fin 0) s" "jle s (Fin 100)"
  shows "jle (Fin 0) (jmul (jmul (jdiv s (Fin 100)) innerRadius) lit_0_9)"
    and "jle (jmul (jmul (jdiv s (Fin 100)) innerRadius) lit_0_9) (jmul lit_0_9 innerRadius)"
proof -
  show "jle (Fin 0) (jmul (jmul (jdiv s (Fin 100)) innerRadius) lit_0_9)"
    unfolding innerRadius_val by (rule normal_bounds(1) [OF assms])
  show "jle (jmul (jmul (jdiv s (Fin 100)) innerRadius) lit_0_9) (jmul lit_0_9 innerRadius)"
    unfolding innerRadius_val jmul_commute [of lit_0_9] by (rule normal_bounds(2) [OF assms])
qed

lemma bands_apart:
  assumes "jle (Fin 0) sa" "jle sa (Fin 100)" "jle (Fin 0) sn" "jle sn (Fin 100)"
  shows "jless (jmul (jmul (jdiv sn (Fin 100)) innerRadius) lit_0_9)
           (jadd innerRadius (jmul (jdiv sa (Fin 100)) (jsub radius innerRadius)))"
proof -
  have "jle (jmul (jmul (jdiv sn (Fin 100)) (Fin 96)) lit_0_9) (jmul (Fin 96) lit_0_9)"
    by (rule normal_bounds(2) [OF assms(3,4)])
  then have "jle (jmul (jmul (jdiv sn (Fin 100)) (Fin 96)) lit_0_9) (Fin 90)"
    using normal_cap_below_90 by (rule jle_trans)
  moreover have "jless (Fin 90) (Fin 96)" by simp
  ultimately have "jless (jmul (jmul (jdiv sn (Fin 100)) (Fin 96)) lit_0_9) (Fin 96)"
    by (rule jle_jless_trans)
  moreover have "jle (Fin 96) (jadd (Fin 96) (jmul (jdiv sa (Fin 100)) (Fin 64)))"
    by (rule anomaly_bounds(1) [OF assms(1,2)])
  ultimately have "jless (jmul (jmul (jdiv sn (Fin 100)) (Fin 96)) lit_0_9)
      (jadd (Fin 96) (jmul (jdiv sa (Fin 100)) (Fin 64)))"
    by (rule jless_jle_trans)
  then show ?thesis by (simp only: anomaly_expression normal_expression)
qed

subsection \<open>Monotonicity of the distance\<close>

lemma distance_nonneg:
  assumes "is_double R" "is_double r" "0 < r" "r < R" "jle (Fin 0) s"
  shows "jle (Fin 0) (distance (Fin R) (Fin r) s a)"
proof -
  have "jle (jdiv (Fin 0) (Fin 100)) (jdiv s (Fin 100))" using assms(5) by (rule jdiv_mono) simp
  then have q: "jle (Fin 0) (jdiv s (Fin 100))" by (simp add: round64_zero)
  show ?thesis
  proof (cases a)
    case True
    obtain c where c: "jsub (Fin R) (Fin r) = Fin c" "0 < c"
      using band_width_pos [OF assms(1-4)] by blast
    have "jle (jmul (Fin 0) (Fin c)) (jmul (jdiv s (Fin 100)) (Fin c))"
      using q c(2) by (rule jmul_mono)
    then have "jle (Fin 0) (jmul (jdiv s (Fin 100)) (Fin c))" by (simp add: round64_zero)
    then have "jle (jadd (Fin r) (Fin 0)) (jadd (Fin r) (jmul (jdiv s (Fin 100)) (Fin c)))"
      by (rule jadd_mono)
    then have "jle (Fin r) (jadd (Fin r) (jmul (jdiv s (Fin 100)) (Fin c)))"
      using assms(2) by (simp add: is_double_def)
    moreover have "jle (Fin 0) (Fin r)" using assms(3) by simp
    ultimately have "jle (Fin 0) (jadd (Fin r) (jmul (jdiv s (Fin 100)) (Fin c)))"
      using jle_trans by blast
    with True c(1) show ?thesis by (simp add: distance_def)
  next
    case False
    have "jle (jmul (Fin 0) (Fin r)) (jmul (jdiv s (Fin 100)) (Fin r))"
      using q assms(3) by (rule jmul_mono)
    then have "jle (Fin 0) (jmul (jdiv s (Fin 100)) (Fin r))" by (simp add: round64_zero)
    then have "jle (jmul (Fin 0) (Fin (8106479329266893 / 9007199254740992)))
                 (jmul (jmul (jdiv s (Fin 100)) (Fin r)) (Fin (8106479329266893 / 9007199254740992)))"
      by (rule jmul_mono) simp
    then have "jle (Fin 0) (jmul (jmul (jdiv s (Fin 100)) (Fin r)) lit_0_9)"
      by (simp add: lit_0_9_val round64_zero)
    with False show ?thesis by (simp add: distance_def)
  qed
qed

lemma distance_mono:
  assumes "is_double R" "is_double r" "0 < r" "r < R" "jle s1 s2"
  shows "jle (distance (Fin R) (Fin r) s1 a) (distance (Fin R) (Fin r) s2 a)"
proof -
  have q: "jle (jdiv s1 (Fin 100)) (jdiv s2 (Fin 100))" using assms(5) by (rule jdiv_mono) simp
  show ?thesis
  proof (cases a)
    case True
    obtain c where c: "jsub (Fin R) (Fin r) = Fin c" "0 < c"
      using band_width_pos [OF assms(1-4)] by blast
    have "jle (jmul (jdiv s1 (Fin 100)) (Fin c)) (jmul (jdiv s2 (Fin 100)) (Fin c))"
      using q c(2) by (rule jmul_mono)
    then have "jle (jadd (Fin r) (jmul (jdiv s1 (Fin 100)) (Fin c)))
                 (jadd (Fin r) (jmul (jdiv s2 (Fin 100)) (Fin c)))"
      by (rule jadd_mono)
    with True c(1) show ?thesis by (simp add: distance_def)
  next
    case False
    from q assms(3)
    have "jle (jmul (jdiv s1 (Fin 100)) (Fin r)) (jmul (jdiv s2 (Fin 100)) (Fin r))"
      by (rule jmul_mono)
    then have "jle (jmul (jmul (jdiv s1 (Fin 100)) (Fin r)) (Fin (8106479329266893 / 9007199254740992)))
                 (jmul (jmul (jdiv s2 (Fin 100)) (Fin r)) (Fin (8106479329266893 / 9007199254740992)))"
      by (rule jmul_mono) simp
    with False show ?thesis by (simp add: distance_def lit_0_9_val)
  qed
qed

lemma layout_radii: "is_double 160" "is_double 96"
  by (simp_all add: is_double_def round64_numeral)

subsection \<open>Points on the horizontal axis\<close>

text \<open>
  With a cosine of 1 and a sine of 0 the point lies on the horizontal axis, at the value of
  the distance expression.
\<close>

lemma jmul_one_left_ge:
  assumes "jle (Fin a) d" "round64 a = Fin a"
  shows "jle (Fin a) (jmul (Fin 1) d)"
proof -
  have "jle (jmul (Fin a) (Fin 1)) (jmul d (Fin 1))" using assms(1) by (rule jmul_mono) simp
  then show ?thesis using assms(2) by (simp add: jmul_commute [of "Fin 1"])
qed

lemma jmul_one_left_le:
  assumes "jle d (Fin a)" "round64 a = Fin a"
  shows "jle (jmul (Fin 1) d) (Fin a)"
proof -
  have "jle (jmul d (Fin 1)) (jmul (Fin a) (Fin 1))" using assms(1) by (rule jmul_mono) simp
  then show ?thesis using assms(2) by (simp add: jmul_commute [of "Fin 1"])
qed

lemma jmul_zero_left: "jmul (Fin 0) (Fin v) = Fin 0"
  by (simp add: round64_zero)

lemma sample_math_values:
  "math_cos sample_math a = Fin 1" "math_sin sample_math a = Fin 0"
  by (simp_all add: sample_math_def)

lemma parse_minus_50: "parseFloat ''-50'' = Fin (- 50)"
  by (simp add: parse_defs round64_numeral)

section \<open>Sorting by score\<close>

lemma mset_insert_sorted: "mset (insert_sorted cmp a bs) = add_mset a (mset bs)"
  by (induction bs) simp_all

lemma mset_array_sort: "mset (array_sort cmp xs) = mset xs"
  by (induction xs) (simp_all add: mset_insert_sorted)

lemma set_insert_sorted: "set (insert_sorted cmp a bs) = insert a (set bs)"
  using mset_insert_sorted [of cmp a bs] by (metis set_mset_add_mset_insert set_mset_mset)

lemma set_array_sort: "set (array_sort cmp xs) = set xs"
  using mset_array_sort [of cmp xs] by (metis set_mset_mset)

lemma jsub_pos_scores:
  assumes "p \<noteq> NaN" "q \<noteq> NaN"
    and "\<And>x. p = Fin x \<Longrightarrow> on_grid x" "\<And>y. q = Fin y \<Longrightarrow> on_grid y"
  shows "jless (Fin 0) (jsub p q) = jless q p"
proof (cases p)
  case (Fin x)
  note p = this
  show ?thesis
  proof (cases q)
    case (Fin y)
    with p assms(3,4) show ?thesis using jsub_pos_iff [of x y] by simp
  qed (use p assms in \<open>simp_all add: jsub_def\<close>)
next
  case NInf
  with assms show ?thesis by (cases q) (simp_all add: jsub_def)
next
  case PInf
  with assms show ?thesis by (cases q) (simp_all add: jsub_def)
qed (use assms in simp)

lemma compare_scores_pos:
  assumes "tx_score a \<noteq> NaN" "tx_score b \<noteq> NaN"
  shows "jless (Fin 0) (compare_scores ord a b) = (\<not> in_order ord a b)"
proof (cases "ord = Desc")
  case True
  have "jless (Fin 0) (jsub (tx_score b) (tx_score a)) = jless (tx_score a) (tx_score b)"
    using assms by (intro jsub_pos_scores) (simp_all add: tx_score_grid)
  also have "\<dots> = (\<not> jle (tx_score b) (tx_score a))"
    using not_jless_iff_jle [OF assms] by blast
  finally show ?thesis
    using True by (simp add: compare_scores_def in_order_def tx_score_def Let_def)
next
  case False
  have "jless (Fin 0) (jsub (tx_score a) (tx_score b)) = jless (tx_score b) (tx_score a)"
    using assms by (intro jsub_pos_scores) (simp_all add: tx_score_grid)
  also have "\<dots> = (\<not> jle (tx_score a) (tx_score b))"
    using not_jless_iff_jle [OF assms(2,1)] by blast
  finally show ?thesis
    using False by (simp add: compare_scores_def in_order_def tx_score_def Let_def)
qed

lemma in_order_total:
  assumes "tx_score a \<noteq> NaN" "tx_score b \<noteq> NaN"
  shows "in_order ord a b \<or> in_order ord b a"
  using jle_total [OF assms] by (auto simp add: in_order_def)

lemma in_order_trans: "in_order ord a b \<Longrightarrow> in_order ord b c \<Longrightarrow> in_order ord a c"
  by (auto simp add: in_order_def intro: jle_trans split: if_splits)

lemma sorted_insert_sorted:
  assumes "tx_score a \<noteq> NaN" "\<forall>t \<in> set bs. tx_score t \<noteq> NaN"
    and "sorted_wrt (in_order ord) bs"
  shows "sorted_wrt (in_order ord) (insert_sorted (compare_scores ord) a bs)"
  using assms
proof (induction bs)
  case Nil
  then show ?case by simp
next
  case (Cons b bs)
  show ?case
  proof (cases "jless (Fin 0) (compare_scores ord a b)")
    case True
    then have "\<not> in_order ord a b" using compare_scores_pos [of a b ord] Cons.prems by simp
    then have ba: "in_order ord b a" using in_order_total [of a b ord] Cons.prems by auto
    have "sorted_wrt (in_order ord) (insert_sorted (compare_scores ord) a bs)"
      using Cons by simp
    moreover have "\<forall>z \<in> set (insert_sorted (compare_scores ord) a bs). in_order ord b z"
      using ba Cons.prems(3) by (simp add: set_insert_sorted)
    ultimately show ?thesis using True by simp
  next
    case False
    then have ab: "in_order ord a b" using compare_scores_pos [of a b ord] Cons.prems by simp
    have "\<forall>z \<in> set bs. in_order ord a z"
      using ab Cons.prems(3) by (auto intro: in_order_trans)
    with ab Cons.prems(3) False show ?thesis by simp
  qed
qed

lemma sorted_array_sort:
  assumes "\<forall>t \<in> set txs. tx_score t \<noteq> NaN"
  shows "sorted_wrt (in_order ord) (array_sort (compare_scores ord) txs)"
  using assms
proof (induction txs)
  case Nil
  then show ?case by simp
next
  case (Cons a txs)
  then show ?case by (simp add: sorted_insert_sorted set_array_sort)
qed

lemma handleSort_present:
  assumes "data s = Some d" "transactions d = Some txs"
  shows "handleSort s =
           s\<lparr>data := Some (d\<lparr>transactions := Some (array_sort (compare_scores (sortOrder s)) txs)\<rparr>),
             sortOrder := (if sortOrder s = Desc then Asc else Desc)\<rparr>"
  using assms by (simp add: handleSort_def)

section \<open>Rendering\<close>



lemma render_row_ok:
  assumes "has_addresses t"
  shows "render_row dark t = Inr (row_of dark t)"
  using assms by (auto simp add: has_addresses_def render_row_def row_of_def)


lemma render_rows_ok:
  assumes "\<forall>t \<in> set txs. has_addresses t"
  shows "render_rows dark txs = Inr (map (row_of dark) txs)"
  using assms by (induction txs) (simp_all add: render_row_ok)

lemma finished_fetch:
  "loading (fetchData_finish (Resolved body) s) = False"
  "error (fetchData_finish (Resolved body) s) = None"
  "data (fetchData_finish (Resolved body) s) = Some body"
  "darkMode (fetchData_finish (Resolved body) s) = darkMode s"
  "sortOrder (fetchData_finish (Resolved body) s) = sortOrder s"
  by (simp_all add: fetchData_finish_def)

lemma failed_fetch:
  "loading (fetchData_finish Rejected s) = False"
  "error (fetchData_finish Rejected s) = Some ''Error fetching data, please refresh the page''"
  "data (fetchData_finish Rejected s) = data s"
  "darkMode (fetchData_finish Rejected s) = darkMode s"
  "sortOrder (fetchData_finish Rejected s) = sortOrder s"
  by (simp_all add: fetchData_finish_def)

lemma shown_after_resolved: "dashboard_shown (fetchData_finish (Resolved body) s)"
  by (simp add: dashboard_shown_def finished_fetch)

lemma hidden_after_rejected: "\<not> dashboard_shown (fetchData_finish Rejected s)"
  by (simp add: dashboard_shown_def failed_fetch)

lemma hidden_while_loading: "\<not> dashboard_shown (fetchData_start s)"
  by (simp add: dashboard_shown_def fetchData_start_def)

text \<open>
  The definitions that the rendering after the end of a fetch unfolds to.
\<close>

lemmas rendering_defs =
  step.simps rerender_def page_def App_render_def table_rows_def shown_anomalies_def
  HyperSphereVisualization_effect_def

lemma step_mount:
  "step m (Mount False) initial_system = Inr waiting_system"
  by (simp add: initial_system_def waiting_system_def rerender_def dashboard_shown_def
      fetchData_start_def initial_state_def)

lemma step_rejected:
  assumes "mounted y"
  shows "step m (FetchDone Rejected) y
           = Inr (y\<lparr>app := fetchData_finish Rejected (app y), drawing := []\<rparr>)"
  using assms by (simp add: rerender_def hidden_after_rejected)

lemma step_tick:
  assumes "mounted y"
  shows "step m Tick y
           = Inr (if timer y
                  then y\<lparr>app := fetchData_start (app y), requests := requests y + 1, drawing := []\<rparr>
                  else y)"
  using assms by (simp add: rerender_def hidden_while_loading)

lemma step_resolved_absent:
  assumes "mounted y" "transactions body = None"
  shows "step m (FetchDone (Resolved body)) y
           = Inr (y\<lparr>app := fetchData_finish (Resolved body) (app y),
                    drawing := (if dashboard_shown (app y) then drawing y else [])\<rparr>)"
  using assms
  by (simp add: rerender_def shown_after_resolved finished_fetch table_rows_def
      HyperSphereVisualization_effect_def)

lemma step_resolved_present:
  assumes "mounted y" "transactions body = Some txs" "\<forall>t \<in> set txs. has_addresses t"
  shows "step m (FetchDone (Resolved body)) y
           = Inr (y\<lparr>app := fetchData_finish (Resolved body) (app y),
                    drawing :=
                      BoundaryCircle innerRadius (if darkMode (app y) then ''#4B5563'' else ''#E5E7EB'')
                      # map (point_node (darkMode (app y))) (points m txs)\<rparr>)"
  using assms(1,2) render_rows_ok [OF assms(3), of "darkMode (app y)"]
  by (simp add: rerender_def shown_after_resolved finished_fetch table_rows_def
      HyperSphereVisualization_effect_def)

lemma step_resolved_thrown:
  assumes "mounted y" "transactions body = Some txs" "render_rows (darkMode (app y)) txs = Inl e"
  shows "step m (FetchDone (Resolved body)) y = Inl e"
  using assms
  by (simp add: rerender_def shown_after_resolved finished_fetch table_rows_def)

lemma page_rejected:
  assumes "mounted y"
  shows "page (step m (FetchDone Rejected) y)
           = Inr (ErrorMessage ''Error fetching data, please refresh the page'')"
  using assms
  by (subst step_rejected [OF assms]) (simp add: page_def App_render_def failed_fetch)



lemma requests_step:
  assumes "step m e z = Inr z'"
  shows "requests z' =
           (case e of
              Mount p \<Rightarrow> (if mounted z then requests z else requests z + 1)
            | Tick \<Rightarrow> (if mounted z \<and> timer z then requests z + 1 else requests z)
            | _ \<Rightarrow> requests z)"
  using assms
  by (cases e) (auto simp add: rerender_def split: if_splits sum.splits)

declare step.simps [simp del]

lemma run_single: "run [(m, e)] y = step m e y"
  by (cases "step m e y") simp_all

lemma run_cons_Inr: "step m e y = Inr y' \<Longrightarrow> run ((m, e) # es) y = run es y'"
  by simp

text \<open>
  The three events from a failed fetch to the end of the next fetch, when that fetch
  returns a body: the dashboard is put on the page anew, whether the timer has ticked or
  not.
\<close>

lemma run_recovery:
  assumes "mounted y"
  shows "run [(m1, FetchDone Rejected), (m2, Tick), (m3, FetchDone (Resolved body))] y
           = step m3 (FetchDone (Resolved body))
               (if timer y
                then y\<lparr>app := fetchData_start (fetchData_finish Rejected (app y)),
                       requests := requests y + 1, drawing := []\<rparr>
                else y\<lparr>app := fetchData_finish Rejected (app y), drawing := []\<rparr>)"
proof -
  let ?y1 = "y\<lparr>app := fetchData_finish Rejected (app y), drawing := []\<rparr>"
  have m: "mounted ?y1" using assms by simp
  have "run [(m1, FetchDone Rejected), (m2, Tick), (m3, FetchDone (Resolved body))] y
      = run [(m2, Tick), (m3, FetchDone (Resolved body))] ?y1"
    by (simp add: step_rejected [OF assms])
  also have "\<dots> = run [(m3, FetchDone (Resolved body))]
      (if timer ?y1
       then ?y1\<lparr>app := fetchData_start (app ?y1), requests := requests ?y1 + 1, drawing := []\<rparr>
       else ?y1)"
    by (simp add: step_tick [OF m])
  finally show ?thesis by (simp split: sum.splits)
qed

lemma has_addresses_sample: "has_addresses (sample_tx p a)"
  by (simp add: has_addresses_def sample_tx_def)

lemma transactions_sample: "transactions (sample_response txs) = Some txs"
  by (simp add: sample_response_def)

lemma loaded_fields:
  "data (loaded body) = Some body" "sortOrder (loaded body) = Desc"
  "darkMode (loaded body) = False" "loading (loaded body) = False" "error (loaded body) = None"
  by (simp_all add: loaded_def finished_fetch fetchData_start_def initial_state_def)

lemma waiting_fields:
  "mounted waiting_system" "\<not> dashboard_shown (app waiting_system)"
  "darkMode (app waiting_system) = False" "timer waiting_system" "requests waiting_system = 1"
  by (simp_all add: waiting_system_def dashboard_shown_def fetchData_start_def initial_state_def)


text \<open>The first fetch of the component returns a body with a list of records.\<close>

lemma step_first_fetch:
  assumes "transactions body = Some txs" "\<forall>t \<in> set txs. has_addresses t"
  shows "step m (FetchDone (Resolved body)) waiting_system
           = Inr (dashboard_system body (HyperSphereVisualization_effect m (Some body) False []))"
  using assms(1)
  by (subst step_resolved_present [OF waiting_fields(1) assms])
     (simp add: waiting_system_def dashboard_system_def loaded_def
       HyperSphereVisualization_effect_def fetchData_start_def initial_state_def)

lemma sample_scores_numeric:
  "\<forall>t \<in> set [sample_tx ''10'' False, sample_tx ''90'' True, sample_tx ''50'' True].
     tx_score t \<noteq> NaN"
  by (simp add: tx_score_sample parse_10 parse_90 parse_50)

lemma sample_sort_desc:
  "array_sort (compare_scores Desc)
     [sample_tx ''10'' False, sample_tx ''90'' True, sample_tx ''50'' True]
   = [sample_tx ''90'' True, sample_tx ''50'' True, sample_tx ''10'' False]"
proof -
  have s: "parseFloat_field (anomaly_percentage (sample_tx p a)) = parseFloat p" for p a
    using tx_score_sample [of p a] by (simp add: tx_score_def)
  show ?thesis
    by (simp add: compare_scores_def s parse_10 parse_90 parse_50 jsub_def round64_numeral
        round64_neg_numeral)
qed

lemma sample_sort_asc:
  "array_sort (compare_scores Asc)
     [sample_tx ''90'' True, sample_tx ''50'' True, sample_tx ''10'' False]
   = [sample_tx ''10'' False, sample_tx ''50'' True, sample_tx ''90'' True]"
proof -
  have s: "parseFloat_field (anomaly_percentage (sample_tx p a)) = parseFloat p" for p a
    using tx_score_sample [of p a] by (simp add: tx_score_def)
  show ?thesis
    by (simp add: compare_scores_def s parse_10 parse_90 parse_50 jsub_def round64_numeral
        round64_neg_numeral)
qed

lemma sample_sort_non_numeric:
  "array_sort (compare_scores Desc)
     [sample_tx ''2'' False, sample_tx ''abc'' False, sample_tx ''3'' True]
   = [sample_tx ''2'' False, sample_tx ''abc'' False, sample_tx ''3'' True]"
proof -
  have s: "parseFloat_field (anomaly_percentage (sample_tx p a)) = parseFloat p" for p a
    using tx_score_sample [of p a] by (simp add: tx_score_def)
  show ?thesis
    by (simp add: compare_scores_def s parse_2 parse_3 parse_abc jsub_def)
qed

section \<open>The claims about the projection\<close>

text \<open>
  Claim C1. For every record with \<^verbatim>\<open>is_anomaly\<close> true whose parsed score lies in
  [0, 100], the projector computes the distance
  \<^verbatim>\<open>innerRadius + (score / 100) * (radius - innerRadius)\<close> and places the point of the
  record at it: the coordinates of the point at the index of the record are this distance
  times the cosine and the sine of the angle drawn for the record. The distance lies
  between \<^verbatim>\<open>innerRadius\<close> and \<^verbatim>\<open>radius\<close>, both ends included.
\<close>

theorem anomaly_distance_in_band:
  assumes "i < length txs" "is_anomaly (txs ! i)"
    and "jle (Fin 0) (tx_score (txs ! i))" "jle (tx_score (txs ! i)) (Fin 100)"
  shows "point_x (points m txs ! i)
           = jmul (math_cos m (jmul (jmul (math_random m i) (Fin 2)) Math_PI))
               (jadd innerRadius (jmul (jdiv (tx_score (txs ! i)) (Fin 100)) (jsub radius innerRadius)))
    \<and> point_y (points m txs ! i)
           = jmul (math_sin m (jmul (jmul (math_random m i) (Fin 2)) Math_PI))
               (jadd innerRadius (jmul (jdiv (tx_score (txs ! i)) (Fin 100)) (jsub radius innerRadius)))
    \<and> jle innerRadius (jadd innerRadius (jmul (jdiv (tx_score (txs ! i)) (Fin 100)) (jsub radius innerRadius)))
    \<and> jle (jadd innerRadius (jmul (jdiv (tx_score (txs ! i)) (Fin 100)) (jsub radius innerRadius))) radius"
proof -
  have "points m txs ! i = project_point m i (txs ! i)" using assms(1) by (rule points_nth)
  then have "point_x (points m txs ! i)
      = jmul (math_cos m (jmul (jmul (math_random m i) (Fin 2)) Math_PI))
          (jadd innerRadius (jmul (jdiv (tx_score (txs ! i)) (Fin 100)) (jsub radius innerRadius)))"
    "point_y (points m txs ! i)
      = jmul (math_sin m (jmul (jmul (math_random m i) (Fin 2)) Math_PI))
          (jadd innerRadius (jmul (jdiv (tx_score (txs ! i)) (Fin 100)) (jsub radius innerRadius)))"
    using assms(2) by (simp_all add: project_point_def distance_def tx_score_def Let_def)
  moreover note anomaly_in_band [OF assms(3,4)]
  ultimately show ?thesis by blast
qed

theorem anomaly_distance_in_band_witness:
  "(1::nat) < length [sample_tx ''10'' False, sample_tx ''90'' True]
   \<and> is_anomaly ([sample_tx ''10'' False, sample_tx ''90'' True] ! 1)
   \<and> jle (Fin 0) (tx_score ([sample_tx ''10'' False, sample_tx ''90'' True] ! 1))
   \<and> jle (tx_score ([sample_tx ''10'' False, sample_tx ''90'' True] ! 1)) (Fin 100)
   \<and> point_x (points sample_math [sample_tx ''10'' False, sample_tx ''90'' True] ! 1)
       = jmul (Fin 1) (jadd innerRadius (jmul (jdiv (Fin 90) (Fin 100)) (jsub radius innerRadius)))
   \<and> point_y (points sample_math [sample_tx ''10'' False, sample_tx ''90'' True] ! 1)
       = jmul (Fin 0) (jadd innerRadius (jmul (jdiv (Fin 90) (Fin 100)) (jsub radius innerRadius)))
   \<and> jle innerRadius (jadd innerRadius (jmul (jdiv (Fin 90) (Fin 100)) (jsub radius innerRadius)))
   \<and> jle (jadd innerRadius (jmul (jdiv (Fin 90) (Fin 100)) (jsub radius innerRadius))) radius"
proof -
  have h: "(1::nat) < length [sample_tx ''10'' False, sample_tx ''90'' True]"
    "is_anomaly ([sample_tx ''10'' False, sample_tx ''90'' True] ! 1)"
    "jle (Fin 0) (tx_score ([sample_tx ''10'' False, sample_tx ''90'' True] ! 1))"
    "jle (tx_score ([sample_tx ''10'' False, sample_tx ''90'' True] ! 1)) (Fin 100)"
    by (simp_all add: tx_score_sample is_anomaly_sample parse_90)
  have s: "tx_score ([sample_tx ''10'' False, sample_tx ''90'' True] ! 1) = Fin 90"
    by (simp add: tx_score_sample parse_90)
  from anomaly_distance_in_band [OF h, of sample_math]
  have "point_x (points sample_math [sample_tx ''10'' False, sample_tx ''90'' True] ! 1)
       = jmul (Fin 1) (jadd innerRadius (jmul (jdiv (Fin 90) (Fin 100)) (jsub radius innerRadius)))
   \<and> point_y (points sample_math [sample_tx ''10'' False, sample_tx ''90'' True] ! 1)
       = jmul (Fin 0) (jadd innerRadius (jmul (jdiv (Fin 90) (Fin 100)) (jsub radius innerRadius)))
   \<and> jle innerRadius (jadd innerRadius (jmul (jdiv (Fin 90) (Fin 100)) (jsub radius innerRadius)))
   \<and> jle (jadd innerRadius (jmul (jdiv (Fin 90) (Fin 100)) (jsub radius innerRadius))) radius"
    by (simp only: s sample_math_values)
  with h show ?thesis by blast
qed

text \<open>
  Claim C2. For every record with \<^verbatim>\<open>is_anomaly\<close> false whose parsed score lies in
  [0, 100], the projector computes the distance \<^verbatim>\<open>(score / 100) * innerRadius * 0.9\<close>
  and places the point of the record at it: the coordinates of the point at the index of
  the record are this distance times the cosine and the sine of the angle drawn for the
  record. The distance lies between 0 and \<^verbatim>\<open>0.9 * innerRadius\<close>, both ends included.
\<close>

theorem normal_distance_in_disc:
  assumes "i < length txs" "\<not> is_anomaly (txs ! i)"
    and "jle (Fin 0) (tx_score (txs ! i))" "jle (tx_score (txs ! i)) (Fin 100)"
  shows "point_x (points m txs ! i)
           = jmul (math_cos m (jmul (jmul (math_random m i) (Fin 2)) Math_PI))
               (jmul (jmul (jdiv (tx_score (txs ! i)) (Fin 100)) innerRadius) lit_0_9)
    \<and> point_y (points m txs ! i)
           = jmul (math_sin m (jmul (jmul (math_random m i) (Fin 2)) Math_PI))
               (jmul (jmul (jdiv (tx_score (txs ! i)) (Fin 100)) innerRadius) lit_0_9)
    \<and> jle (Fin 0) (jmul (jmul (jdiv (tx_score (txs ! i)) (Fin 100)) innerRadius) lit_0_9)
    \<and> jle (jmul (jmul (jdiv (tx_score (txs ! i)) (Fin 100)) innerRadius) lit_0_9) (jmul lit_0_9 innerRadius)"
proof -
  have "points m txs ! i = project_point m i (txs ! i)" using assms(1) by (rule points_nth)
  then have "point_x (points m txs ! i)
      = jmul (math_cos m (jmul (jmul (math_random m i) (Fin 2)) Math_PI))
          (jmul (jmul (jdiv (tx_score (txs ! i)) (Fin 100)) innerRadius) lit_0_9)"
    "point_y (points m txs ! i)
      = jmul (math_sin m (jmul (jmul (math_random m i) (Fin 2)) Math_PI))
          (jmul (jmul (jdiv (tx_score (txs ! i)) (Fin 100)) innerRadius) lit_0_9)"
    using assms(2) by (simp_all add: project_point_def distance_def tx_score_def Let_def)
  moreover note normal_in_disc [OF assms(3,4)]
  ultimately show ?thesis by blast
qed

theorem normal_distance_in_disc_witness:
  "(0::nat) < length [sample_tx ''10'' False, sample_tx ''90'' True]
   \<and> \<not> is_anomaly ([sample_tx ''10'' False, sample_tx ''90'' True] ! 0)
   \<and> jle (Fin 0) (tx_score ([sample_tx ''10'' False, sample_tx ''90'' True] ! 0))
   \<and> jle (tx_score ([sample_tx ''10'' False, sample_tx ''90'' True] ! 0)) (Fin 100)
   \<and> point_x (points sample_math [sample_tx ''10'' False, sample_tx ''90'' True] ! 0)
       = jmul (Fin 1) (jmul (jmul (jdiv (Fin 10) (Fin 100)) innerRadius) lit_0_9)
   \<and> point_y (points sample_math [sample_tx ''10'' False, sample_tx ''90'' True] ! 0)
       = jmul (Fin 0) (jmul (jmul (jdiv (Fin 10) (Fin 100)) innerRadius) lit_0_9)
   \<and> jle (Fin 0) (jmul (jmul (jdiv (Fin 10) (Fin 100)) innerRadius) lit_0_9)
   \<and> jle (jmul (jmul (jdiv (Fin 10) (Fin 100)) innerRadius) lit_0_9) (jmul lit_0_9 innerRadius)"
proof -
  have h: "(0::nat) < length [sample_tx ''10'' False, sample_tx ''90'' True]"
    "\<not> is_anomaly ([sample_tx ''10'' False, sample_tx ''90'' True] ! 0)"
    "jle (Fin 0) (tx_score ([sample_tx ''10'' False, sample_tx ''90'' True] ! 0))"
    "jle (tx_score ([sample_tx ''10'' False, sample_tx ''90'' True] ! 0)) (Fin 100)"
    by (simp_all add: tx_score_sample is_anomaly_sample parse_10)
  have s: "tx_score ([sample_tx ''10'' False, sample_tx ''90'' True] ! 0) = Fin 10"
    by (simp add: tx_score_sample parse_10)
  from normal_distance_in_disc [OF h, of sample_math]
  have "point_x (points sample_math [sample_tx ''10'' False, sample_tx ''90'' True] ! 0)
       = jmul (Fin 1) (jmul (jmul (jdiv (Fin 10) (Fin 100)) innerRadius) lit_0_9)
   \<and> point_y (points sample_math [sample_tx ''10'' False, sample_tx ''90'' True] ! 0)
       = jmul (Fin 0) (jmul (jmul (jdiv (Fin 10) (Fin 100)) innerRadius) lit_0_9)
   \<and> jle (Fin 0) (jmul (jmul (jdiv (Fin 10) (Fin 100)) innerRadius) lit_0_9)
   \<and> jle (jmul (jmul (jdiv (Fin 10) (Fin 100)) innerRadius) lit_0_9) (jmul lit_0_9 innerRadius)"
    by (simp only: s sample_math_values)
  with h show ?thesis by blast
qed

text \<open>
  Claim C3, as stated: for every anomalous record and every normal record, whatever their
  scores, the anomalous record is placed strictly farther from the origin. This fails: with
  a cosine of 1 and a sine of 0 for every angle, the anomalous record with score 0 is
  placed on the horizontal axis at 96, and the normal record with score 200 on the same
  axis at 96 or beyond it.
\<close>

theorem separation_any_score_counterexample:
  "is_anomaly ([sample_tx ''0'' True, sample_tx ''200'' False] ! 0)
   \<and> \<not> is_anomaly ([sample_tx ''0'' True, sample_tx ''200'' False] ! 1)
   \<and> point_x (points sample_math [sample_tx ''0'' True, sample_tx ''200'' False] ! 0) = Fin 96
   \<and> point_y (points sample_math [sample_tx ''0'' True, sample_tx ''200'' False] ! 0) = Fin 0
   \<and> jle (Fin 96) (point_x (points sample_math [sample_tx ''0'' True, sample_tx ''200'' False] ! 1))
   \<and> point_y (points sample_math [sample_tx ''0'' True, sample_tx ''200'' False] ! 1) = Fin 0"
proof -
  let ?txs = "[sample_tx ''0'' True, sample_tx ''200'' False]"
  have i: "(0::nat) < length ?txs" "(1::nat) < length ?txs" by simp_all
  have a: "distance radius innerRadius (tx_score (?txs ! 0)) (is_anomaly (?txs ! 0)) = Fin 96"
    by (simp add: distance_val tx_score_sample is_anomaly_sample parse_0 round64_zero
        round64_numeral)
  have "(96::rat) \<le> 192 * (8106479329266893 / 9007199254740992)"
    "192 * (8106479329266893 / 9007199254740992) \<le> (192::rat)"
    "round64 96 = Fin 96" "round64 192 = Fin 192"
    by (simp_all add: round64_numeral)
  from round64_between [OF this]
  obtain z where z: "round64 (192 * (8106479329266893 / 9007199254740992)) = Fin z" "96 \<le> z"
    by blast
  have n: "distance radius innerRadius (tx_score (?txs ! 1)) (is_anomaly (?txs ! 1)) = Fin z"
    using z(1)
    by (simp add: distance_val tx_score_sample is_anomaly_sample parse_200 round64_numeral
        lit_0_9_val)
  have "jle (Fin 96) (Fin z)" using z(2) by simp
  then have "jle (Fin 96) (jmul (Fin 1) (Fin z))"
    by (rule jmul_one_left_ge) (simp add: round64_numeral)
  moreover have "point_x (points sample_math ?txs ! k)
      = jmul (Fin 1) (distance radius innerRadius (tx_score (?txs ! k)) (is_anomaly (?txs ! k)))"
    "point_y (points sample_math ?txs ! k)
      = jmul (Fin 0) (distance radius innerRadius (tx_score (?txs ! k)) (is_anomaly (?txs ! k)))"
    if "k < length ?txs" for k
    using points_nth [OF that, of sample_math]
    by (simp_all add: project_point_def tx_score_def sample_math_def Let_def)
  note this [OF i(1)] this [OF i(2)]
  ultimately show ?thesis
    by (simp only: a n jmul_zero_left) (simp add: is_anomaly_sample round64_numeral)
qed

text \<open>
  Claim C3, amended: for every anomalous record and every normal record whose parsed
  scores both lie in [0, 100], the projector places the points of the two records at the
  distances \<^verbatim>\<open>innerRadius + (score / 100) * (radius - innerRadius)\<close> and
  \<^verbatim>\<open>(score / 100) * innerRadius * 0.9\<close> of their scores, each at the angle drawn for
  the record, and the distance of the normal record is at least 0 and strictly smaller
  than the distance of the anomalous record.
\<close>

theorem separation_in_range:
  assumes "i < length txs" "j < length txs'"
    and "is_anomaly (txs ! i)" "\<not> is_anomaly (txs' ! j)"
    and "jle (Fin 0) (tx_score (txs ! i))" "jle (tx_score (txs ! i)) (Fin 100)"
    and "jle (Fin 0) (tx_score (txs' ! j))" "jle (tx_score (txs' ! j)) (Fin 100)"
  shows "point_x (points m txs ! i)
           = jmul (math_cos m (jmul (jmul (math_random m i) (Fin 2)) Math_PI))
               (jadd innerRadius (jmul (jdiv (tx_score (txs ! i)) (Fin 100)) (jsub radius innerRadius)))
    \<and> point_y (points m txs ! i)
           = jmul (math_sin m (jmul (jmul (math_random m i) (Fin 2)) Math_PI))
               (jadd innerRadius (jmul (jdiv (tx_score (txs ! i)) (Fin 100)) (jsub radius innerRadius)))
    \<and> point_x (points m' txs' ! j)
           = jmul (math_cos m' (jmul (jmul (math_random m' j) (Fin 2)) Math_PI))
               (jmul (jmul (jdiv (tx_score (txs' ! j)) (Fin 100)) innerRadius) lit_0_9)
    \<and> point_y (points m' txs' ! j)
           = jmul (math_sin m' (jmul (jmul (math_random m' j) (Fin 2)) Math_PI))
               (jmul (jmul (jdiv (tx_score (txs' ! j)) (Fin 100)) innerRadius) lit_0_9)
    \<and> jle (Fin 0) (jmul (jmul (jdiv (tx_score (txs' ! j)) (Fin 100)) innerRadius) lit_0_9)
    \<and> jless (jmul (jmul (jdiv (tx_score (txs' ! j)) (Fin 100)) innerRadius) lit_0_9)
          (jadd innerRadius (jmul (jdiv (tx_score (txs ! i)) (Fin 100)) (jsub radius innerRadius)))"
proof -
  have "points m txs ! i = project_point m i (txs ! i)" using assms(1) by (rule points_nth)
  then have "point_x (points m txs ! i)
      = jmul (math_cos m (jmul (jmul (math_random m i) (Fin 2)) Math_PI))
          (jadd innerRadius (jmul (jdiv (tx_score (txs ! i)) (Fin 100)) (jsub radius innerRadius)))"
    "point_y (points m txs ! i)
      = jmul (math_sin m (jmul (jmul (math_random m i) (Fin 2)) Math_PI))
          (jadd innerRadius (jmul (jdiv (tx_score (txs ! i)) (Fin 100)) (jsub radius innerRadius)))"
    using assms(3) by (simp_all add: project_point_def distance_def tx_score_def Let_def)
  moreover have "points m' txs' ! j = project_point m' j (txs' ! j)"
    using assms(2) by (rule points_nth)
  then have "point_x (points m' txs' ! j)
      = jmul (math_cos m' (jmul (jmul (math_random m' j) (Fin 2)) Math_PI))
          (jmul (jmul (jdiv (tx_score (txs' ! j)) (Fin 100)) innerRadius) lit_0_9)"
    "point_y (points m' txs' ! j)
      = jmul (math_sin m' (jmul (jmul (math_random m' j) (Fin 2)) Math_PI))
          (jmul (jmul (jdiv (tx_score (txs' ! j)) (Fin 100)) innerRadius) lit_0_9)"
    using assms(4) by (simp_all add: project_point_def distance_def tx_score_def Let_def)
  moreover note normal_in_disc(1) [OF assms(7,8)] bands_apart [OF assms(5,6,7,8)]
  ultimately show ?thesis by blast
qed

theorem separation_in_range_witness:
  "(1::nat) < length [sample_tx ''10'' False, sample_tx ''90'' True]
   \<and> (0::nat) < length [sample_tx ''10'' False, sample_tx ''90'' True]
   \<and> is_anomaly ([sample_tx ''10'' False, sample_tx ''90'' True] ! 1)
   \<and> \<not> is_anomaly ([sample_tx ''10'' False, sample_tx ''90'' True] ! 0)
   \<and> jle (Fin 0) (tx_score ([sample_tx ''10'' False, sample_tx ''90'' True] ! 1))
   \<and> jle (tx_score ([sample_tx ''10'' False, sample_tx ''90'' True] ! 1)) (Fin 100)
   \<and> jle (Fin 0) (tx_score ([sample_tx ''10'' False, sample_tx ''90'' True] ! 0))
   \<and> jle (tx_score ([sample_tx ''10'' False, sample_tx ''90'' True] ! 0)) (Fin 100)
   \<and> point_x (points sample_math [sample_tx ''10'' False, sample_tx ''90'' True] ! 1)
       = jmul (Fin 1) (jadd innerRadius (jmul (jdiv (Fin 90) (Fin 100)) (jsub radius innerRadius)))
   \<and> point_x (points sample_math [sample_tx ''10'' False, sample_tx ''90'' True] ! 0)
       = jmul (Fin 1) (jmul (jmul (jdiv (Fin 10) (Fin 100)) innerRadius) lit_0_9)
   \<and> jless (jmul (jmul (jdiv (Fin 10) (Fin 100)) innerRadius) lit_0_9)
         (jadd innerRadius (jmul (jdiv (Fin 90) (Fin 100)) (jsub radius innerRadius)))"
proof -
  have h: "(1::nat) < length [sample_tx ''10'' False, sample_tx ''90'' True]"
    "(0::nat) < length [sample_tx ''10'' False, sample_tx ''90'' True]"
    "is_anomaly ([sample_tx ''10'' False, sample_tx ''90'' True] ! 1)"
    "\<not> is_anomaly ([sample_tx ''10'' False, sample_tx ''90'' True] ! 0)"
    "jle (Fin 0) (tx_score ([sample_tx ''10'' False, sample_tx ''90'' True] ! 1))"
    "jle (tx_score ([sample_tx ''10'' False, sample_tx ''90'' True] ! 1)) (Fin 100)"
    "jle (Fin 0) (tx_score ([sample_tx ''10'' False, sample_tx ''90'' True] ! 0))"
    "jle (tx_score ([sample_tx ''10'' False, sample_tx ''90'' True] ! 0)) (Fin 100)"
    by (simp_all add: tx_score_sample is_anomaly_sample parse_90 parse_10)
  have s: "tx_score ([sample_tx ''10'' False, sample_tx ''90'' True] ! 1) = Fin 90"
    "(tx_score ([sample_tx ''10'' False, sample_tx ''90'' True] ! 0)) = Fin 10"
    by (simp_all add: tx_score_sample parse_90 parse_10)
  from separation_in_range [OF h, of sample_math sample_math]
  have "point_x (points sample_math [sample_tx ''10'' False, sample_tx ''90'' True] ! 1)
       = jmul (Fin 1) (jadd innerRadius (jmul (jdiv (Fin 90) (Fin 100)) (jsub radius innerRadius)))
   \<and> point_x (points sample_math [sample_tx ''10'' False, sample_tx ''90'' True] ! 0)
       = jmul (Fin 1) (jmul (jmul (jdiv (Fin 10) (Fin 100)) innerRadius) lit_0_9)
   \<and> jless (jmul (jmul (jdiv (Fin 10) (Fin 100)) innerRadius) lit_0_9)
         (jadd innerRadius (jmul (jdiv (Fin 90) (Fin 100)) (jsub radius innerRadius)))"
    by (simp only: s sample_math_values)
  with h show ?thesis by blast
qed

text \<open>
  Claim C7. The projector produces one point per input record, and the point at index
  \<open>i\<close> carries the parsed \<^verbatim>\<open>anomaly_percentage\<close> and the \<^verbatim>\<open>is_anomaly\<close> flag of the
  record at index \<open>i\<close>.
\<close>

theorem points_index_aligned:
  "length (points m txs) = length txs
   \<and> (\<forall>i < length txs.
        point_score (points m txs ! i) = parseFloat_field (anomaly_percentage (txs ! i))
        \<and> point_isAnomaly (points m txs ! i) = is_anomaly (txs ! i))"
  by (simp add: length_points points_nth project_point_def Let_def)

theorem points_index_aligned_witness:
  "length (points sample_math [sample_tx ''10'' False, sample_tx ''90'' True]) = 2
   \<and> (1::nat) < length [sample_tx ''10'' False, sample_tx ''90'' True]
   \<and> point_score (points sample_math [sample_tx ''10'' False, sample_tx ''90'' True] ! 1) = Fin 90
   \<and> point_isAnomaly (points sample_math [sample_tx ''10'' False, sample_tx ''90'' True] ! 1)"
proof -
  have "tx_score (sample_tx ''90'' True) = Fin 90" by (simp add: tx_score_sample parse_90)
  then have s: "parseFloat_field (anomaly_percentage (sample_tx ''90'' True)) = Fin 90"
    by (simp add: tx_score_def)
  have i: "(1::nat) < length [sample_tx ''10'' False, sample_tx ''90'' True]" by simp
  from points_index_aligned [of sample_math "[sample_tx ''10'' False, sample_tx ''90'' True]"] i
  show ?thesis by (simp add: s is_anomaly_sample)
qed

text \<open>
  Claim C10, as stated: among records with the same \<^verbatim>\<open>is_anomaly\<close> flag, a record
  with a smaller parsed score is placed strictly closer to the origin. This fails in two
  ways, shown with a cosine of 1 and a sine of 0 for every angle. The anomalous records
  with the score texts \<^verbatim>\<open>0\<close> and \<^verbatim>\<open>0.0000000000000001\<close> have different parsed
  scores and are placed at the same point (96, 0), since the sum of 96 and a term below
  half the spacing of the binary64 values around 96 is rounded to 96. The normal records
  with the score texts \<^verbatim>\<open>-50\<close> and \<^verbatim>\<open>0\<close> are placed on the horizontal axis at -43
  or beyond it and at the origin: the record with the smaller score is the farther one.
\<close>

theorem distance_strictly_monotone_counterexample:
  "jless (Fin 0) innerRadius \<and> jless innerRadius radius
   \<and> is_anomaly ([sample_tx ''0'' True, sample_tx ''0.0000000000000001'' True] ! 0)
       = is_anomaly ([sample_tx ''0'' True, sample_tx ''0.0000000000000001'' True] ! 1)
   \<and> jless (tx_score ([sample_tx ''0'' True, sample_tx ''0.0000000000000001'' True] ! 0))
         (tx_score ([sample_tx ''0'' True, sample_tx ''0.0000000000000001'' True] ! 1))
   \<and> point_x (points sample_math [sample_tx ''0'' True, sample_tx ''0.0000000000000001'' True] ! 0)
       = Fin 96
   \<and> point_y (points sample_math [sample_tx ''0'' True, sample_tx ''0.0000000000000001'' True] ! 0)
       = Fin 0
   \<and> point_x (points sample_math [sample_tx ''0'' True, sample_tx ''0.0000000000000001'' True] ! 1)
       = Fin 96
   \<and> point_y (points sample_math [sample_tx ''0'' True, sample_tx ''0.0000000000000001'' True] ! 1)
       = Fin 0
   \<and> is_anomaly ([sample_tx ''-50'' False, sample_tx ''0'' False] ! 0)
       = is_anomaly ([sample_tx ''-50'' False, sample_tx ''0'' False] ! 1)
   \<and> jless (tx_score ([sample_tx ''-50'' False, sample_tx ''0'' False] ! 0))
         (tx_score ([sample_tx ''-50'' False, sample_tx ''0'' False] ! 1))
   \<and> jle (point_x (points sample_math [sample_tx ''-50'' False, sample_tx ''0'' False] ! 0)) (Fin (- 43))
   \<and> point_y (points sample_math [sample_tx ''-50'' False, sample_tx ''0'' False] ! 0) = Fin 0
   \<and> point_x (points sample_math [sample_tx ''-50'' False, sample_tx ''0'' False] ! 1) = Fin 0
   \<and> point_y (points sample_math [sample_tx ''-50'' False, sample_tx ''0'' False] ! 1) = Fin 0"
proof -
  let ?ts = "[sample_tx ''0'' True, sample_tx ''0.0000000000000001'' True]"
  let ?ns = "[sample_tx ''-50'' False, sample_tx ''0'' False]"
  have i: "(0::nat) < length ?ts" "(1::nat) < length ?ts" "(0::nat) < length ?ns"
    "(1::nat) < length ?ns"
    by simp_all
  obtain s where s: "parseFloat ''0.0000000000000001'' = Fin s" "0 < s" "s \<le> pow2 (- 53)"
    using tiny_score by blast
  have t1: "distance radius innerRadius (tx_score (?ts ! 1)) (is_anomaly (?ts ! 1)) = Fin 96"
    using anomaly_tiny [of s] s by (simp add: distance_val tx_score_sample is_anomaly_sample)
  have t0: "distance radius innerRadius (tx_score (?ts ! 0)) (is_anomaly (?ts ! 0)) = Fin 96"
    using anomaly_tiny [of 0] pow2_pos [of "- 53"]
    by (simp add: distance_val tx_score_sample is_anomaly_sample parse_0)
  have "(- 48::rat) \<le> - 48 * (8106479329266893 / 9007199254740992)"
    "- 48 * (8106479329266893 / 9007199254740992) \<le> (- 43::rat)"
    "round64 (- 48) = Fin (- 48)" "round64 (- 43) = Fin (- 43)"
    by (simp_all add: round64_neg_numeral)
  from round64_between [OF this]
  obtain z where z: "round64 (- 48 * (8106479329266893 / 9007199254740992)) = Fin z" "z \<le> - 43"
    by blast
  have "round64 (- (1 / 2)) = Fin (- (1 / 2))"
    using round64_exact [of "- 1" "- 1"] by (simp add: pow2_neg_exp)
  then have n0: "distance radius innerRadius (tx_score (?ns ! 0)) (is_anomaly (?ns ! 0)) = Fin z"
    using z(1)
    by (simp add: distance_val tx_score_sample is_anomaly_sample parse_minus_50
        round64_neg_numeral lit_0_9_val)
  have n1: "distance radius innerRadius (tx_score (?ns ! 1)) (is_anomaly (?ns ! 1)) = Fin 0"
    by (simp add: distance_val tx_score_sample is_anomaly_sample parse_0 round64_zero
        lit_0_9_val)
  have "jle (Fin z) (Fin (- 43))" using z(2) by simp
  then have far: "jle (jmul (Fin 1) (Fin z)) (Fin (- 43))"
    by (rule jmul_one_left_le) (simp add: round64_neg_numeral)
  have scores: "jless (tx_score (?ts ! 0)) (tx_score (?ts ! 1))"
    "jless (tx_score (?ns ! 0)) (tx_score (?ns ! 1))"
    using s by (simp_all add: tx_score_sample parse_0 parse_minus_50)
  have one: "jmul (Fin 1) (Fin 96) = Fin 96" "jmul (Fin 1) (Fin 0) = Fin 0"
    by (simp_all add: round64_numeral round64_zero)
  have placed: "point_x (points sample_math txs ! k)
      = jmul (Fin 1) (distance radius innerRadius (tx_score (txs ! k)) (is_anomaly (txs ! k)))"
    "point_y (points sample_math txs ! k)
      = jmul (Fin 0) (distance radius innerRadius (tx_score (txs ! k)) (is_anomaly (txs ! k)))"
    if "k < length txs" for k txs
    using points_nth [OF that, of sample_math]
    by (simp_all add: project_point_def tx_score_def sample_math_def Let_def)
  have pts: "point_x (points sample_math ?ts ! 0) = Fin 96" "point_y (points sample_math ?ts ! 0) = Fin 0"
    "point_x (points sample_math ?ts ! 1) = Fin 96" "point_y (points sample_math ?ts ! 1) = Fin 0"
    "point_x (points sample_math ?ns ! 0) = jmul (Fin 1) (Fin z)" "point_y (points sample_math ?ns ! 0) = Fin 0"
    "point_x (points sample_math ?ns ! 1) = Fin 0" "point_y (points sample_math ?ns ! 1) = Fin 0"
    using placed [OF i(1)] placed [OF i(2)] placed [OF i(3)] placed [OF i(4)]
    by (simp_all only: t0 t1 n0 n1 jmul_zero_left one)
  have "jless (Fin 0) innerRadius" "jless innerRadius radius"
    by (simp_all add: innerRadius_val radius_val)
  with scores far pts show ?thesis by (simp add: is_anomaly_sample)
qed

text \<open>
  Claim C10, amended. Among records with the same \<^verbatim>\<open>is_anomaly\<close> flag, the distance
  at which the projector places the point of a record is at least 0 and does not decrease
  when the parsed score grows from a value that is at least 0. For the distance expression
  of the code this holds with every pair of binary64 radii \<open>radius > innerRadius > 0\<close>.
  For two records with the same flag and parsed scores \<open>0 \<le> s1 < s2\<close> the projector,
  with its radii 160 and 96, places each point at the distance of its record, at the angle
  drawn for it, and the distance of the first is at least 0 and at most the distance of
  the second; it is strictly smaller when both scores lie in [0, 100] and differ by at
  least \<open>1 / 10 ^ 12\<close>.
\<close>

theorem distance_monotone:
  "(is_double R \<and> is_double r \<and> 0 < r \<and> r < R \<and> jle (Fin 0) s1 \<and> jless s1 s2 \<longrightarrow>
      jle (Fin 0) (distance (Fin R) (Fin r) s1 a)
      \<and> jle (distance (Fin R) (Fin r) s1 a) (distance (Fin R) (Fin r) s2 a))
   \<and> (i < length txs \<and> j < length txs' \<and> is_anomaly (txs ! i) = is_anomaly (txs' ! j)
       \<and> jle (Fin 0) (tx_score (txs ! i)) \<and> jless (tx_score (txs ! i)) (tx_score (txs' ! j)) \<longrightarrow>
      point_x (points m txs ! i)
        = jmul (math_cos m (jmul (jmul (math_random m i) (Fin 2)) Math_PI))
            (distance radius innerRadius (tx_score (txs ! i)) (is_anomaly (txs ! i)))
      \<and> point_y (points m txs ! i)
        = jmul (math_sin m (jmul (jmul (math_random m i) (Fin 2)) Math_PI))
            (distance radius innerRadius (tx_score (txs ! i)) (is_anomaly (txs ! i)))
      \<and> point_x (points m' txs' ! j)
        = jmul (math_cos m' (jmul (jmul (math_random m' j) (Fin 2)) Math_PI))
            (distance radius innerRadius (tx_score (txs' ! j)) (is_anomaly (txs' ! j)))
      \<and> point_y (points m' txs' ! j)
        = jmul (math_sin m' (jmul (jmul (math_random m' j) (Fin 2)) Math_PI))
            (distance radius innerRadius (tx_score (txs' ! j)) (is_anomaly (txs' ! j)))
      \<and> jle (Fin 0) (distance radius innerRadius (tx_score (txs ! i)) (is_anomaly (txs ! i)))
      \<and> jle (distance radius innerRadius (tx_score (txs ! i)) (is_anomaly (txs ! i)))
            (distance radius innerRadius (tx_score (txs' ! j)) (is_anomaly (txs' ! j))))
   \<and> (is_anomaly (txs ! i) = is_anomaly (txs' ! j)
       \<and> tx_score (txs ! i) = Fin x1 \<and> tx_score (txs' ! j) = Fin x2
       \<and> 0 \<le> x1 \<and> x1 + 1 / 10 ^ 12 \<le> x2 \<and> x2 \<le> 100 \<longrightarrow>
      jless (distance radius innerRadius (tx_score (txs ! i)) (is_anomaly (txs ! i)))
        (distance radius innerRadius (tx_score (txs' ! j)) (is_anomaly (txs' ! j))))"
proof (intro conjI impI)
  assume h: "is_double R \<and> is_double r \<and> 0 < r \<and> r < R \<and> jle (Fin 0) s1 \<and> jless s1 s2"
  then have r: "is_double R" "is_double r" "0 < r" "r < R" and s: "jle (Fin 0) s1" "jle s1 s2"
    by (simp_all add: jless_imp_jle)
  show "jle (Fin 0) (distance (Fin R) (Fin r) s1 a)" using r s(1) by (rule distance_nonneg)
  show "jle (distance (Fin R) (Fin r) s1 a) (distance (Fin R) (Fin r) s2 a)"
    using r s(2) by (rule distance_mono)
next
  assume h: "i < length txs \<and> j < length txs' \<and> is_anomaly (txs ! i) = is_anomaly (txs' ! j)
       \<and> jle (Fin 0) (tx_score (txs ! i)) \<and> jless (tx_score (txs ! i)) (tx_score (txs' ! j))"
  then have i: "i < length txs" and j: "j < length txs'"
    and f: "is_anomaly (txs' ! j) = is_anomaly (txs ! i)"
    and s: "jle (Fin 0) (tx_score (txs ! i))" "jle (tx_score (txs ! i)) (tx_score (txs' ! j))"
    by (simp_all add: jless_imp_jle)
  have "points m txs ! i = project_point m i (txs ! i)" using i by (rule points_nth)
  then show "point_x (points m txs ! i)
        = jmul (math_cos m (jmul (jmul (math_random m i) (Fin 2)) Math_PI))
            (distance radius innerRadius (tx_score (txs ! i)) (is_anomaly (txs ! i)))"
    and "point_y (points m txs ! i)
        = jmul (math_sin m (jmul (jmul (math_random m i) (Fin 2)) Math_PI))
            (distance radius innerRadius (tx_score (txs ! i)) (is_anomaly (txs ! i)))"
    by (simp_all add: project_point_def tx_score_def Let_def)
  have "points m' txs' ! j = project_point m' j (txs' ! j)" using j by (rule points_nth)
  then show "point_x (points m' txs' ! j)
        = jmul (math_cos m' (jmul (jmul (math_random m' j) (Fin 2)) Math_PI))
            (distance radius innerRadius (tx_score (txs' ! j)) (is_anomaly (txs' ! j)))"
    and "point_y (points m' txs' ! j)
        = jmul (math_sin m' (jmul (jmul (math_random m' j) (Fin 2)) Math_PI))
            (distance radius innerRadius (tx_score (txs' ! j)) (is_anomaly (txs' ! j)))"
    by (simp_all add: project_point_def tx_score_def Let_def)
  have "jle (Fin 0) (distance (Fin 160) (Fin 96) (tx_score (txs ! i)) (is_anomaly (txs ! i)))"
    using layout_radii s(1) by (intro distance_nonneg) simp_all
  then show "jle (Fin 0) (distance radius innerRadius (tx_score (txs ! i)) (is_anomaly (txs ! i)))"
    by (simp only: radius_val innerRadius_val)
  have "jle (distance (Fin 160) (Fin 96) (tx_score (txs ! i)) (is_anomaly (txs ! i)))
          (distance (Fin 160) (Fin 96) (tx_score (txs' ! j)) (is_anomaly (txs ! i)))"
    using layout_radii s(2) by (intro distance_mono) simp_all
  then show "jle (distance radius innerRadius (tx_score (txs ! i)) (is_anomaly (txs ! i)))
            (distance radius innerRadius (tx_score (txs' ! j)) (is_anomaly (txs' ! j)))"
    by (simp only: radius_val innerRadius_val f)
next
  assume h: "is_anomaly (txs ! i) = is_anomaly (txs' ! j)
       \<and> tx_score (txs ! i) = Fin x1 \<and> tx_score (txs' ! j) = Fin x2
       \<and> 0 \<le> x1 \<and> x1 + 1 / 10 ^ 12 \<le> x2 \<and> x2 \<le> 100"
  then have f: "is_anomaly (txs' ! j) = is_anomaly (txs ! i)"
    and e: "tx_score (txs ! i) = Fin x1" "tx_score (txs' ! j) = Fin x2"
    and x: "0 \<le> x1" "x1 + 1 / 10 ^ 12 \<le> x2" "x2 \<le> 100"
    by simp_all
  show "jless (distance radius innerRadius (tx_score (txs ! i)) (is_anomaly (txs ! i)))
        (distance radius innerRadius (tx_score (txs' ! j)) (is_anomaly (txs' ! j)))"
  proof -
    have d: "distance radius innerRadius s b =
        (if b then jadd (Fin 96) (jmul (jdiv s (Fin 100)) (Fin 64))
         else jmul (jmul (jdiv s (Fin 100)) (Fin 96)) lit_0_9)" for s b
      using band_width_val by (simp only: distance_def innerRadius_val)
    show ?thesis
      using anomaly_separated [OF x] normal_separated [OF x]
      by (cases "is_anomaly (txs ! i)") (simp_all only: e f d if_True if_False)
  qed
qed

theorem distance_monotone_witness:
  "is_double 160 \<and> is_double 96 \<and> (0::rat) < 96 \<and> (96::rat) < 160
   \<and> jle (Fin 0) (Fin 10) \<and> jless (Fin 10) (Fin 90)
   \<and> jle (Fin 0) (distance (Fin 160) (Fin 96) (Fin 10) True)
   \<and> jle (distance (Fin 160) (Fin 96) (Fin 10) True) (distance (Fin 160) (Fin 96) (Fin 90) True)
   \<and> (0::nat) < length [sample_tx ''10'' True, sample_tx ''90'' True]
   \<and> (1::nat) < length [sample_tx ''10'' True, sample_tx ''90'' True]
   \<and> is_anomaly ([sample_tx ''10'' True, sample_tx ''90'' True] ! 0) = is_anomaly ([sample_tx ''10'' True, sample_tx ''90'' True] ! 1)
   \<and> (tx_score ([sample_tx ''10'' True, sample_tx ''90'' True] ! 0)) = Fin 10
   \<and> (tx_score ([sample_tx ''10'' True, sample_tx ''90'' True] ! 1)) = Fin 90
   \<and> (0::rat) \<le> 10 \<and> (10::rat) + 1 / 10 ^ 12 \<le> 90 \<and> (90::rat) \<le> 100
   \<and> point_x (points sample_math [sample_tx ''10'' True, sample_tx ''90'' True] ! 0)
       = jmul (Fin 1) (distance radius innerRadius (Fin 10) True)
   \<and> point_x (points sample_math [sample_tx ''10'' True, sample_tx ''90'' True] ! 1)
       = jmul (Fin 1) (distance radius innerRadius (Fin 90) True)
   \<and> jle (Fin 0) (distance radius innerRadius (Fin 10) True)
   \<and> jless (distance radius innerRadius (Fin 10) True) (distance radius innerRadius (Fin 90) True)"
proof -
  let ?txs = "[sample_tx ''10'' True, sample_tx ''90'' True]"
  have r: "is_double 160 \<and> is_double 96 \<and> (0::rat) < 96 \<and> (96::rat) < 160
      \<and> jle (Fin 0) (Fin 10) \<and> jless (Fin 10) (Fin 90)"
    by (simp add: layout_radii)
  have e: "tx_score (?txs ! 0) = Fin 10" "tx_score (?txs ! 1) = Fin 90"
    by (simp_all add: tx_score_sample parse_10 parse_90)
  have f: "is_anomaly (?txs ! 0) = True" "is_anomaly (?txs ! 1) = True"
    by (simp_all add: is_anomaly_sample)
  have k: "(0::nat) < length ?txs \<and> (1::nat) < length ?txs
      \<and> is_anomaly (?txs ! 0) = is_anomaly (?txs ! 1)
      \<and> jle (Fin 0) (tx_score (?txs ! 0)) \<and> jless (tx_score (?txs ! 0)) (tx_score (?txs ! 1))"
    by (simp add: tx_score_sample is_anomaly_sample parse_10 parse_90)
  have x: "is_anomaly (?txs ! 0) = is_anomaly (?txs ! 1)
      \<and> tx_score (?txs ! 0) = Fin 10 \<and> tx_score (?txs ! 1) = Fin 90
      \<and> (0::rat) \<le> 10 \<and> (10::rat) + 1 / 10 ^ 12 \<le> 90 \<and> (90::rat) \<le> 100"
    by (simp add: tx_score_sample is_anomaly_sample parse_10 parse_90)
  from distance_monotone [of 160 96 "Fin 10" "Fin 90" True 0 ?txs 1 ?txs sample_math sample_math
      10 90] r k x
  have "jle (Fin 0) (distance (Fin 160) (Fin 96) (Fin 10) True)"
    "jle (distance (Fin 160) (Fin 96) (Fin 10) True) (distance (Fin 160) (Fin 96) (Fin 90) True)"
    "point_x (points sample_math ?txs ! 0)
       = jmul (math_cos sample_math (jmul (jmul (math_random sample_math 0) (Fin 2)) Math_PI))
           (distance radius innerRadius (tx_score (?txs ! 0)) (is_anomaly (?txs ! 0)))"
    "point_x (points sample_math ?txs ! 1)
       = jmul (math_cos sample_math (jmul (jmul (math_random sample_math 1) (Fin 2)) Math_PI))
           (distance radius innerRadius (tx_score (?txs ! 1)) (is_anomaly (?txs ! 1)))"
    "jle (Fin 0) (distance radius innerRadius (tx_score (?txs ! 0)) (is_anomaly (?txs ! 0)))"
    "jless (distance radius innerRadius (tx_score (?txs ! 0)) (is_anomaly (?txs ! 0)))
       (distance radius innerRadius (tx_score (?txs ! 1)) (is_anomaly (?txs ! 1)))"
    by blast+
  then show ?thesis using r x by (simp only: e f sample_math_values) simp
qed

section \<open>The claim about the severity classifier\<close>

text \<open>
  Claim C4. The severity classifier is a total function: for each of the six severities
  HIGH, MEDIUM-HIGH, MEDIUM, LOW-MEDIUM, LOW, VERY-LOW and both themes it returns the
  class of the tag in the table of the specification, and for every other severity value,
  absent ones included, it returns the class of the default gray tag of the theme. The
  statement is an equation between the function of the code and the table, for every
  severity value and both themes.
\<close>

theorem getSeverityClass_refines_table:
  "getSeverityClass sev isDark = tag_class (classify_spec sev isDark)"
  by (simp add: getSeverityClass_def classify_spec_def)

section \<open>The claims about sorting\<close>

text \<open>
  Claim C5, as stated: every invocation of the toggle on a non-empty record list leaves
  the list ordered by parsed \<^verbatim>\<open>anomaly_percentage\<close> as the current state asks. This
  fails for a list with a score that is not a number: every comparison with that record
  yields NaN, which the sort takes for 0, and in the descending state the list with the
  score texts \<^verbatim>\<open>2\<close>, \<^verbatim>\<open>abc\<close>, \<^verbatim>\<open>3\<close> stays as it is, the record with score 2
  ahead of the record with score 3.
\<close>

theorem handleSort_non_numeric_counterexample:
  "sortOrder (loaded (sample_response
      [sample_tx ''2'' False, sample_tx ''abc'' False, sample_tx ''3'' True])) = Desc
   \<and> data (handleSort (loaded (sample_response
        [sample_tx ''2'' False, sample_tx ''abc'' False, sample_tx ''3'' True])))
     = Some ((sample_response [sample_tx ''2'' False, sample_tx ''abc'' False, sample_tx ''3'' True])
          \<lparr>transactions := Some [sample_tx ''2'' False, sample_tx ''abc'' False, sample_tx ''3'' True]\<rparr>)
   \<and> jless (tx_score (sample_tx ''2'' False)) (tx_score (sample_tx ''3'' True))
   \<and> \<not> sorted_wrt (in_order Desc)
        [sample_tx ''2'' False, sample_tx ''abc'' False, sample_tx ''3'' True]"
proof -
  let ?txs = "[sample_tx ''2'' False, sample_tx ''abc'' False, sample_tx ''3'' True]"
  have h: "data (loaded (sample_response ?txs)) = Some (sample_response ?txs)"
    "transactions (sample_response ?txs) = Some ?txs"
    by (simp_all add: loaded_fields transactions_sample)
  have "handleSort (loaded (sample_response ?txs))
      = (loaded (sample_response ?txs))
          \<lparr>data := Some ((sample_response ?txs)
                   \<lparr>transactions := Some (array_sort (compare_scores Desc) ?txs)\<rparr>),
            sortOrder := Asc\<rparr>"
    using handleSort_present [OF h] by (simp add: loaded_fields)
  then have "data (handleSort (loaded (sample_response ?txs)))
      = Some ((sample_response ?txs)\<lparr>transactions := Some ?txs\<rparr>)"
    by (simp only: sample_sort_non_numeric) simp
  moreover have "jless (tx_score (sample_tx ''2'' False)) (tx_score (sample_tx ''3'' True))"
    by (simp add: tx_score_sample parse_2 parse_3)
  moreover have "\<not> sorted_wrt (in_order Desc) ?txs"
    by (simp add: in_order_def tx_score_sample parse_2 parse_3 parse_abc)
  ultimately show ?thesis by (simp add: loaded_fields)
qed

text \<open>
  Claim C5, amended. The sort state has the two values descending and ascending and starts
  as descending. An invocation of the toggle on a present record list replaces the list by
  a permutation of it, the table shows the rows of that list, and the state is flipped;
  when the parsed scores of the records are all numbers, the new list is ordered by parsed
  \<^verbatim>\<open>anomaly_percentage\<close> as the state before the invocation asks, descending or
  ascending.
\<close>

theorem handleSort_sorts_and_flips:
  assumes "data s = Some d" "transactions d = Some txs"
  shows "sortOrder initial_state = Desc
    \<and> data (handleSort s)
        = Some (d\<lparr>transactions := Some (array_sort (compare_scores (sortOrder s)) txs)\<rparr>)
    \<and> mset (array_sort (compare_scores (sortOrder s)) txs) = mset txs
    \<and> ((\<forall>t \<in> set txs. tx_score t \<noteq> NaN) \<longrightarrow>
          sorted_wrt (in_order (sortOrder s)) (array_sort (compare_scores (sortOrder s)) txs))
    \<and> table_rows (darkMode (handleSort s)) (data (handleSort s))
        = render_rows (darkMode s) (array_sort (compare_scores (sortOrder s)) txs)
    \<and> sortOrder (handleSort s) = (if sortOrder s = Desc then Asc else Desc)"
proof -
  note h = handleSort_present [OF assms]
  have "sortOrder initial_state = Desc" by (simp add: initial_state_def)
  moreover have "data (handleSort s)
      = Some (d\<lparr>transactions := Some (array_sort (compare_scores (sortOrder s)) txs)\<rparr>)"
    by (simp add: h)
  moreover have "mset (array_sort (compare_scores (sortOrder s)) txs) = mset txs"
    by (rule mset_array_sort)
  moreover have "(\<forall>t \<in> set txs. tx_score t \<noteq> NaN) \<longrightarrow>
      sorted_wrt (in_order (sortOrder s)) (array_sort (compare_scores (sortOrder s)) txs)"
    by (simp add: sorted_array_sort)
  moreover have "table_rows (darkMode (handleSort s)) (data (handleSort s))
      = render_rows (darkMode s) (array_sort (compare_scores (sortOrder s)) txs)"
    by (simp add: h table_rows_def)
  moreover have "sortOrder (handleSort s) = (if sortOrder s = Desc then Asc else Desc)"
    by (simp add: h)
  ultimately show ?thesis by blast
qed

theorem handleSort_sorts_and_flips_witness:
  "data (loaded (sample_response [sample_tx ''10'' False, sample_tx ''90'' True, sample_tx ''50'' True]))
     = Some (sample_response [sample_tx ''10'' False, sample_tx ''90'' True, sample_tx ''50'' True])
   \<and> transactions (sample_response [sample_tx ''10'' False, sample_tx ''90'' True, sample_tx ''50'' True])
     = Some [sample_tx ''10'' False, sample_tx ''90'' True, sample_tx ''50'' True]
   \<and> tx_score (sample_tx ''10'' False) \<noteq> NaN
   \<and> tx_score (sample_tx ''90'' True) \<noteq> NaN
   \<and> tx_score (sample_tx ''50'' True) \<noteq> NaN
   \<and> data (handleSort (loaded (sample_response
        [sample_tx ''10'' False, sample_tx ''90'' True, sample_tx ''50'' True])))
     = Some ((sample_response [sample_tx ''10'' False, sample_tx ''90'' True, sample_tx ''50'' True])
          \<lparr>transactions := Some [sample_tx ''90'' True, sample_tx ''50'' True, sample_tx ''10'' False]\<rparr>)
   \<and> sorted_wrt (in_order Desc) [sample_tx ''90'' True, sample_tx ''50'' True, sample_tx ''10'' False]
   \<and> sortOrder (handleSort (loaded (sample_response
        [sample_tx ''10'' False, sample_tx ''90'' True, sample_tx ''50'' True]))) = Asc"
proof -
  let ?txs = "[sample_tx ''10'' False, sample_tx ''90'' True, sample_tx ''50'' True]"
  have h: "data (loaded (sample_response ?txs)) = Some (sample_response ?txs)"
    "transactions (sample_response ?txs) = Some ?txs"
    by (simp_all add: loaded_fields transactions_sample)
  from handleSort_sorts_and_flips [OF h]
  have c: "data (handleSort (loaded (sample_response ?txs)))
      = Some ((sample_response ?txs)
          \<lparr>transactions := Some (array_sort (compare_scores (sortOrder (loaded (sample_response ?txs)))) ?txs)\<rparr>)"
    and i: "(\<forall>t \<in> set ?txs. tx_score t \<noteq> NaN) \<longrightarrow>
      sorted_wrt (in_order (sortOrder (loaded (sample_response ?txs))))
        (array_sort (compare_scores (sortOrder (loaded (sample_response ?txs)))) ?txs)"
    and o: "sortOrder (handleSort (loaded (sample_response ?txs)))
      = (if sortOrder (loaded (sample_response ?txs)) = Desc then Asc else Desc)"
    by blast+
  from c have "data (handleSort (loaded (sample_response ?txs)))
      = Some ((sample_response ?txs)
          \<lparr>transactions := Some [sample_tx ''90'' True, sample_tx ''50'' True, sample_tx ''10'' False]\<rparr>)"
    by (simp only: loaded_fields sample_sort_desc)
  moreover from i sample_scores_numeric
  have "sorted_wrt (in_order (sortOrder (loaded (sample_response ?txs))))
      (array_sort (compare_scores (sortOrder (loaded (sample_response ?txs)))) ?txs)"
    by blast
  then have "sorted_wrt (in_order Desc)
      [sample_tx ''90'' True, sample_tx ''50'' True, sample_tx ''10'' False]"
    by (simp only: loaded_fields sample_sort_desc)
  moreover from o have "sortOrder (handleSort (loaded (sample_response ?txs))) = Asc"
    by (simp add: loaded_fields)
  ultimately show ?thesis using h sample_scores_numeric by simp
qed

text \<open>
  Claim C6. For every record list whose parsed scores are numbers, two invocations of the
  toggle in succession, starting in the descending state, leave the list in ascending
  order by parsed \<^verbatim>\<open>anomaly_percentage\<close>.
\<close>

theorem handleSort_twice_ascending:
  assumes "data s = Some d" "transactions d = Some txs" "sortOrder s = Desc"
    and "\<forall>t \<in> set txs. tx_score t \<noteq> NaN"
  shows "data (handleSort (handleSort s))
        = Some (d\<lparr>transactions :=
                  Some (array_sort (compare_scores Asc) (array_sort (compare_scores Desc) txs))\<rparr>)
    \<and> sorted_wrt (\<lambda>a b. jle (tx_score a) (tx_score b))
         (array_sort (compare_scores Asc) (array_sort (compare_scores Desc) txs))
    \<and> mset (array_sort (compare_scores Asc) (array_sort (compare_scores Desc) txs)) = mset txs
    \<and> table_rows (darkMode (handleSort (handleSort s))) (data (handleSort (handleSort s)))
        = render_rows (darkMode s)
            (array_sort (compare_scores Asc) (array_sort (compare_scores Desc) txs))
    \<and> sortOrder (handleSort (handleSort s)) = Desc"
proof -
  let ?once = "array_sort (compare_scores Desc) txs"
  let ?d1 = "d\<lparr>transactions := Some ?once\<rparr>"
  have h1: "handleSort s = s\<lparr>data := Some ?d1, sortOrder := Asc\<rparr>"
    using handleSort_present [OF assms(1,2)] assms(3) by simp
  have "data (handleSort s) = Some ?d1" "transactions ?d1 = Some ?once"
    by (simp_all add: h1)
  from handleSort_present [OF this]
  have h2: "handleSort (handleSort s)
      = (handleSort s)\<lparr>data := Some (?d1\<lparr>transactions := Some (array_sort (compare_scores Asc) ?once)\<rparr>),
                       sortOrder := Desc\<rparr>"
    by (simp add: h1)
  have d2: "data (handleSort (handleSort s))
      = Some (d\<lparr>transactions := Some (array_sort (compare_scores Asc) ?once)\<rparr>)"
    by (subst h2) simp
  have "darkMode (handleSort (handleSort s)) = darkMode (handleSort s)"
    by (subst h2) simp
  then have m2: "darkMode (handleSort (handleSort s)) = darkMode s" by (simp add: h1)
  have o2: "sortOrder (handleSort (handleSort s)) = Desc"
    by (subst h2) simp
  have "\<forall>t \<in> set ?once. tx_score t \<noteq> NaN" using assms(4) by (simp add: set_array_sort)
  then have "sorted_wrt (in_order Asc) (array_sort (compare_scores Asc) ?once)"
    by (rule sorted_array_sort)
  moreover have "in_order Asc = (\<lambda>a b. jle (tx_score a) (tx_score b))"
    by (simp add: in_order_def fun_eq_iff)
  ultimately have "sorted_wrt (\<lambda>a b. jle (tx_score a) (tx_score b))
      (array_sort (compare_scores Asc) ?once)" by simp
  moreover have "mset (array_sort (compare_scores Asc) ?once) = mset txs"
    by (simp add: mset_array_sort)
  moreover have "table_rows (darkMode (handleSort (handleSort s))) (data (handleSort (handleSort s)))
      = render_rows (darkMode s) (array_sort (compare_scores Asc) ?once)"
    by (simp add: d2 m2 table_rows_def)
  ultimately show ?thesis using d2 o2 by simp
qed

theorem handleSort_twice_ascending_witness:
  "data (loaded (sample_response [sample_tx ''10'' False, sample_tx ''90'' True, sample_tx ''50'' True]))
     = Some (sample_response [sample_tx ''10'' False, sample_tx ''90'' True, sample_tx ''50'' True])
   \<and> transactions (sample_response [sample_tx ''10'' False, sample_tx ''90'' True, sample_tx ''50'' True])
     = Some [sample_tx ''10'' False, sample_tx ''90'' True, sample_tx ''50'' True]
   \<and> sortOrder (loaded (sample_response
        [sample_tx ''10'' False, sample_tx ''90'' True, sample_tx ''50'' True])) = Desc
   \<and> tx_score (sample_tx ''10'' False) \<noteq> NaN
   \<and> tx_score (sample_tx ''90'' True) \<noteq> NaN
   \<and> tx_score (sample_tx ''50'' True) \<noteq> NaN
   \<and> data (handleSort (handleSort (loaded (sample_response
        [sample_tx ''10'' False, sample_tx ''90'' True, sample_tx ''50'' True]))))
     = Some ((sample_response [sample_tx ''10'' False, sample_tx ''90'' True, sample_tx ''50'' True])
          \<lparr>transactions := Some [sample_tx ''10'' False, sample_tx ''50'' True, sample_tx ''90'' True]\<rparr>)"
proof -
  let ?txs = "[sample_tx ''10'' False, sample_tx ''90'' True, sample_tx ''50'' True]"
  have h: "data (loaded (sample_response ?txs)) = Some (sample_response ?txs)"
    "transactions (sample_response ?txs) = Some ?txs"
    "sortOrder (loaded (sample_response ?txs)) = Desc"
    by (simp_all add: loaded_fields transactions_sample)
  from handleSort_twice_ascending [OF h sample_scores_numeric]
  have "data (handleSort (handleSort (loaded (sample_response ?txs))))
      = Some ((sample_response ?txs)
          \<lparr>transactions := Some (array_sort (compare_scores Asc) (array_sort (compare_scores Desc) ?txs))\<rparr>)"
    by blast
  then have "data (handleSort (handleSort (loaded (sample_response ?txs))))
      = Some ((sample_response ?txs)
          \<lparr>transactions := Some [sample_tx ''10'' False, sample_tx ''50'' True, sample_tx ''90'' True]\<rparr>)"
    by (simp only: sample_sort_desc sample_sort_asc)
  then show ?thesis using h sample_scores_numeric by simp
qed

section \<open>The claims about malformed responses and failed fetches\<close>




text \<open>
  Claim C9, as stated: after a failed fetch the view recovers on the next successful
  fetch. This fails when the body that the next fetch returns holds a record without its
  hash: the first fetch of the component fails and the error message is shown, the timer
  ticks, the second fetch succeeds, and the rendering of the row of that record throws a
  TypeError, so that no dashboard is shown.
\<close>

theorem fetch_recovery_counterexample:
  "page (run [(sample_math, Mount False), (sample_math, FetchDone Rejected)] initial_system)
     = Inr (ErrorMessage ''Error fetching data, please refresh the page'')
   \<and> page (run [(sample_math, Mount False),
                 (sample_math, FetchDone Rejected),
                 (sample_math, Tick),
                 (sample_math, FetchDone (Resolved (sample_response [sample_no_hash])))]
              initial_system)
     = Inl TypeError"
proof -
  let ?broken = "sample_response [sample_no_hash]"
  have "run [(sample_math, Mount False), (sample_math, FetchDone Rejected)] initial_system
      = step sample_math (FetchDone Rejected) waiting_system"
    by (simp only: run_cons_Inr [OF step_mount] run_single)
  then have a: "page (run [(sample_math, Mount False), (sample_math, FetchDone Rejected)]
        initial_system)
      = Inr (ErrorMessage ''Error fetching data, please refresh the page'')"
    by (simp only: page_rejected [OF waiting_fields(1)])
  let ?y = "if timer waiting_system
      then waiting_system\<lparr>app := fetchData_start (fetchData_finish Rejected (app waiting_system)),
             requests := requests waiting_system + 1, drawing := []\<rparr>
      else waiting_system\<lparr>app := fetchData_finish Rejected (app waiting_system), drawing := []\<rparr>"
  have m: "mounted ?y" by (simp add: waiting_fields)
  have r: "render_rows (darkMode (app ?y)) [sample_no_hash] = Inl TypeError"
    by (simp add: render_row_def sample_no_hash_def sample_tx_def)
  have "run [(sample_math, Mount False),
             (sample_math, FetchDone Rejected),
             (sample_math, Tick),
             (sample_math, FetchDone (Resolved ?broken))]
          initial_system
      = run [(sample_math, FetchDone Rejected),
             (sample_math, Tick),
             (sample_math, FetchDone (Resolved ?broken))]
          waiting_system"
    by (rule run_cons_Inr [OF step_mount])
  also have "\<dots> = step sample_math (FetchDone (Resolved ?broken)) ?y"
    by (rule run_recovery [OF waiting_fields(1)])
  also have "\<dots> = Inl TypeError"
    using m transactions_sample r by (rule step_resolved_thrown)
  finally show ?thesis using a by (simp add: page_def)
qed

text \<open>
  Claim C9, amended. A failed fetch of the mounted component, by a network error or a
  status outside 2xx, ends in the \<^verbatim>\<open>catch\<close> block: the error state holds the one
  generic message, and the page shows that message alone in place of the dashboard, so
  that no data is shown. The stored data is left as it was, and the failure issues no
  request: the request count changes only when the component mounts or the timer ticks.
  When the next fetch succeeds, whether the timer has started it or not, with a body that
  has no transaction list, or a list of records that all have their hash and addresses,
  the error state is cleared, the new body is stored, and the page shows the dashboard of
  the new body, drawn anew; no request but the one of the timer has been issued.
\<close>

theorem fetch_failure_handled:
  assumes "mounted y"
  shows "page (step m (FetchDone Rejected) y)
           = Inr (ErrorMessage ''Error fetching data, please refresh the page'')
    \<and> view_points (projr (page (step m (FetchDone Rejected) y))) = []
    \<and> view_rows (projr (page (step m (FetchDone Rejected) y))) = []
    \<and> step m (FetchDone Rejected) y
        = Inr (y\<lparr>app := fetchData_finish Rejected (app y), drawing := []\<rparr>)
    \<and> error (fetchData_finish Rejected (app y))
        = Some ''Error fetching data, please refresh the page''
    \<and> data (fetchData_finish Rejected (app y)) = data (app y)
    \<and> requests (y\<lparr>app := fetchData_finish Rejected (app y), drawing := []\<rparr>) = requests y
    \<and> (step m' e z = Inr z' \<longrightarrow>
          requests z' =
            (case e of
               Mount p \<Rightarrow> (if mounted z then requests z else requests z + 1)
             | Tick \<Rightarrow> (if mounted z \<and> timer z then requests z + 1 else requests z)
             | _ \<Rightarrow> requests z))
    \<and> ((case transactions body of
           None \<Rightarrow> True
         | Some txs \<Rightarrow> \<forall>t \<in> set txs. has_addresses t) \<longrightarrow>
          page (run [(m1, FetchDone Rejected), (m2, Tick), (m3, FetchDone (Resolved body))] y)
            = Inr (Dashboard (shown_total (Some body)) (shown_anomalies (Some body))
                    (HyperSphereVisualization_effect m3 (Some body) (darkMode (app y)) [])
                    (case transactions body of
                       None \<Rightarrow> []
                     | Some txs \<Rightarrow> map (row_of (darkMode (app y))) txs))
          \<and> error (app (projr
                (run [(m1, FetchDone Rejected), (m2, Tick), (m3, FetchDone (Resolved body))] y)))
              = None
          \<and> data (app (projr
                (run [(m1, FetchDone Rejected), (m2, Tick), (m3, FetchDone (Resolved body))] y)))
              = Some body
          \<and> requests (projr
                (run [(m1, FetchDone Rejected), (m2, Tick), (m3, FetchDone (Resolved body))] y))
              = (if timer y then requests y + 1 else requests y))"
proof -
  let ?msg = "''Error fetching data, please refresh the page''"
  let ?run = "run [(m1, FetchDone Rejected), (m2, Tick), (m3, FetchDone (Resolved body))] y"
  let ?y = "if timer y
      then y\<lparr>app := fetchData_start (fetchData_finish Rejected (app y)),
             requests := requests y + 1, drawing := []\<rparr>
      else y\<lparr>app := fetchData_finish Rejected (app y), drawing := []\<rparr>"
  let ?last = "step m3 (FetchDone (Resolved body)) ?y"
  let ?dashboard = "Dashboard (shown_total (Some body)) (shown_anomalies (Some body))
      (HyperSphereVisualization_effect m3 (Some body) (darkMode (app y)) [])
      (case transactions body of
         None \<Rightarrow> []
       | Some txs \<Rightarrow> map (row_of (darkMode (app y))) txs)"
  have r: "?run = ?last" by (rule run_recovery [OF assms])
  have m: "mounted ?y" "\<not> dashboard_shown (app ?y)"
    using assms by (simp_all add: hidden_after_rejected hidden_while_loading)
  have k: "darkMode (fetchData_start s) = darkMode s" for s by (simp add: fetchData_start_def)
  have q: "requests ?y = (if timer y then requests y + 1 else requests y)" by simp
  have "page ?last = Inr ?dashboard
        \<and> error (app (projr ?last)) = None
        \<and> data (app (projr ?last)) = Some body
        \<and> requests (projr ?last) = (if timer y then requests y + 1 else requests y)"
    if b: "case transactions body of None \<Rightarrow> True | Some txs \<Rightarrow> \<forall>t \<in> set txs. has_addresses t"
  proof (cases "transactions body")
    case None
    have "page ?last = Inr ?dashboard"
      using assms None
      by (simp add: rendering_defs shown_after_resolved hidden_after_rejected hidden_while_loading
          finished_fetch failed_fetch k)
    moreover have "error (app (projr ?last)) = None" "data (app (projr ?last)) = Some body"
      unfolding step_resolved_absent [OF m(1) None] by (simp_all add: finished_fetch)
    moreover have "requests (projr ?last) = (if timer y then requests y + 1 else requests y)"
      unfolding step_resolved_absent [OF m(1) None] by simp
    ultimately show ?thesis by blast
  next
    case (Some txs)
    with b have a: "\<forall>t \<in> set txs. has_addresses t" by simp
    have "render_rows (darkMode (app y)) txs = Inr (map (row_of (darkMode (app y))) txs)"
      using a by (rule render_rows_ok)
    then have "page ?last = Inr ?dashboard"
      using assms Some
      by (simp add: rendering_defs shown_after_resolved hidden_after_rejected hidden_while_loading
          finished_fetch failed_fetch k)
    moreover have "error (app (projr ?last)) = None" "data (app (projr ?last)) = Some body"
      unfolding step_resolved_present [OF m(1) Some a] by (simp_all add: finished_fetch)
    moreover have "requests (projr ?last) = (if timer y then requests y + 1 else requests y)"
      unfolding step_resolved_present [OF m(1) Some a] by simp
    ultimately show ?thesis by blast
  qed
  then have "(case transactions body of
           None \<Rightarrow> True
         | Some txs \<Rightarrow> \<forall>t \<in> set txs. has_addresses t) \<longrightarrow>
      page ?run = Inr ?dashboard
      \<and> error (app (projr ?run)) = None
      \<and> data (app (projr ?run)) = Some body
      \<and> requests (projr ?run) = (if timer y then requests y + 1 else requests y)"
    by (simp only: r) blast
  moreover have "step m' e z = Inr z' \<longrightarrow>
      requests z' =
        (case e of
           Mount p \<Rightarrow> (if mounted z then requests z else requests z + 1)
         | Tick \<Rightarrow> (if mounted z \<and> timer z then requests z + 1 else requests z)
         | _ \<Rightarrow> requests z)"
    using requests_step by blast
  moreover have p: "page (step m (FetchDone Rejected) y) = Inr (ErrorMessage ?msg)"
    using assms by (simp add: rendering_defs hidden_after_rejected failed_fetch)
  moreover have "step m (FetchDone Rejected) y
      = Inr (y\<lparr>app := fetchData_finish Rejected (app y), drawing := []\<rparr>)"
    using assms by (simp add: rendering_defs hidden_after_rejected)
  moreover have "view_points (projr (page (step m (FetchDone Rejected) y))) = []"
    "view_rows (projr (page (step m (FetchDone Rejected) y))) = []"
    by (simp_all add: p)
  moreover have "error (fetchData_finish Rejected (app y)) = Some ?msg"
    "data (fetchData_finish Rejected (app y)) = data (app y)"
    "requests (y\<lparr>app := fetchData_finish Rejected (app y), drawing := []\<rparr>) = requests y"
    by (simp_all add: failed_fetch)
  ultimately show ?thesis by blast
qed

theorem fetch_failure_handled_witness:
  "mounted waiting_system
   \<and> page (step sample_math (FetchDone Rejected) waiting_system)
       = Inr (ErrorMessage ''Error fetching data, please refresh the page'')
   \<and> step sample_math (FetchDone Rejected) waiting_system
       = Inr (waiting_system\<lparr>app := fetchData_finish Rejected (app waiting_system), drawing := []\<rparr>)
   \<and> requests (waiting_system\<lparr>app := fetchData_finish Rejected (app waiting_system), drawing := []\<rparr>)
       = requests waiting_system
   \<and> transactions (sample_response [sample_tx ''90'' True]) = Some [sample_tx ''90'' True]
   \<and> has_addresses (sample_tx ''90'' True)
   \<and> page (run [(sample_math, FetchDone Rejected),
                 (sample_math, Tick),
                 (sample_math, FetchDone (Resolved (sample_response [sample_tx ''90'' True])))]
              waiting_system)
       = Inr (Dashboard 1 1
               (BoundaryCircle innerRadius ''#E5E7EB''
                # map (point_node False) (points sample_math [sample_tx ''90'' True]))
               [row_of False (sample_tx ''90'' True)])
   \<and> error (app (projr
         (run [(sample_math, FetchDone Rejected),
               (sample_math, Tick),
               (sample_math, FetchDone (Resolved (sample_response [sample_tx ''90'' True])))]
            waiting_system)))
       = None
   \<and> data (app (projr
         (run [(sample_math, FetchDone Rejected),
               (sample_math, Tick),
               (sample_math, FetchDone (Resolved (sample_response [sample_tx ''90'' True])))]
            waiting_system)))
       = Some (sample_response [sample_tx ''90'' True])
   \<and> requests (projr
         (run [(sample_math, FetchDone Rejected),
               (sample_math, Tick),
               (sample_math, FetchDone (Resolved (sample_response [sample_tx ''90'' True])))]
            waiting_system))
       = 2"
proof -
  let ?body = "sample_response [sample_tx ''90'' True]"
  let ?failed = "waiting_system\<lparr>app := fetchData_finish Rejected (app waiting_system), drawing := []\<rparr>"
  let ?run = "run [(sample_math, FetchDone Rejected),
                   (sample_math, Tick),
                   (sample_math, FetchDone (Resolved ?body))]
                waiting_system"
  have h: "transactions ?body = Some [sample_tx ''90'' True]" "has_addresses (sample_tx ''90'' True)"
    by (simp_all add: transactions_sample has_addresses_sample)
  then have c: "case transactions ?body of
      None \<Rightarrow> True
    | Some txs \<Rightarrow> \<forall>t \<in> set txs. has_addresses t"
    by simp
  note t = fetch_failure_handled [OF waiting_fields(1), where m = sample_math and m' = sample_math
      and e = "FetchDone Rejected" and z = waiting_system and z' = ?failed and body = ?body
      and ?m1.0 = sample_math and ?m2.0 = sample_math and ?m3.0 = sample_math]
  from t have f: "page (step sample_math (FetchDone Rejected) waiting_system)
      = Inr (ErrorMessage ''Error fetching data, please refresh the page'')"
    "step sample_math (FetchDone Rejected) waiting_system = Inr ?failed"
    by blast+
  from t f(2) have q: "requests ?failed = requests waiting_system" by simp
  from t c have "page ?run
      = Inr (Dashboard (shown_total (Some ?body)) (shown_anomalies (Some ?body))
              (HyperSphereVisualization_effect sample_math (Some ?body)
                 (darkMode (app waiting_system)) [])
              (case transactions ?body of
                 None \<Rightarrow> []
               | Some txs \<Rightarrow> map (row_of (darkMode (app waiting_system))) txs))"
    "error (app (projr ?run)) = None"
    "data (app (projr ?run)) = Some ?body"
    "requests (projr ?run) = (if timer waiting_system then requests waiting_system + 1
                              else requests waiting_system)"
    by blast+
  then show ?thesis
    using f q h waiting_fields(1)
    by (simp add: waiting_fields(3,4,5) shown_total_def shown_anomalies_def sample_response_def
        HyperSphereVisualization_effect_def is_anomaly_sample del: run.simps)
qed

end
